theory Spec2Isabelle
  imports Complex_Main "HOL-Library.Word" "HOL-Library.Multiset" "HOL-Library.AList"
begin

section \<open>Go values used by the process sampler\<close>

text \<open>
  Errors returned by the data source. The sampler only ever asks two questions of an
  error: \<^verbatim>\<open>sigar.IsNotImplemented(err)\<close> and \<^verbatim>\<open>os.IsPermission(err)\<close>; every other error is
  carried as its message.
\<close>

datatype go_error = ErrNotImplemented | ErrPermission | ErrOther string

definition IsNotImplemented :: "go_error \<Rightarrow> bool" where
  "IsNotImplemented err = (err = ErrNotImplemented)"

definition IsPermission :: "go_error \<Rightarrow> bool" where
  "IsPermission err = (err = ErrPermission)"

text \<open>Run-time panics of the Go code that the model makes explicit.\<close>

datatype panic = SliceBoundsOutOfRange | IndexOutOfRange

text \<open>
  \<^verbatim>\<open>float64\<close>, the binary64 format of IEEE 754. A value is a finite number, one of the two
  infinities, or NaN; a finite value is kept as the rational number it denotes. The two
  zeros are one value here: they compare equal, and the sampler never divides by a
  negative zero (its divisors come from unsigned or elapsed-time integers).
\<close>

datatype float64 = Fin rat | PosInf | NegInf | NaN

text \<open>\<^verbatim>\<open>a < b\<close> on float64: false whenever an operand is NaN.\<close>

fun float_lt :: "float64 \<Rightarrow> float64 \<Rightarrow> bool" where
  "float_lt NaN b = False"
| "float_lt a NaN = False"
| "float_lt (Fin a) (Fin b) = (a < b)"
| "float_lt (Fin a) PosInf = True"
| "float_lt (Fin a) NegInf = False"
| "float_lt PosInf b = False"
| "float_lt NegInf NegInf = False"
| "float_lt NegInf b = True"

definition float_gt :: "float64 \<Rightarrow> float64 \<Rightarrow> bool" where
  "float_gt a b = float_lt b a"

text \<open>\<^verbatim>\<open>a >= b\<close> on float64: false whenever an operand is NaN.\<close>

fun float_ge :: "float64 \<Rightarrow> float64 \<Rightarrow> bool" where
  "float_ge NaN b = False"
| "float_ge a NaN = False"
| "float_ge a b = (\<not> float_lt a b)"

text \<open>
  The binary exponent of a positive number: the \<open>e\<close> with \<open>2^e \<le> a < 2^(e+1)\<close>, found by
  halving a number that is at least 1 and doubling one that is below 1.
\<close>

function halvings :: "rat \<Rightarrow> int" where
  "halvings a = (if a < 2 then 0 else 1 + halvings (a / 2))"
  by pat_completeness auto
termination
proof (relation "measure (\<lambda>a. nat \<lceil>a\<rceil>)")
  show "wf (measure (\<lambda>a::rat. nat \<lceil>a\<rceil>))" by simp
next
  fix a :: rat
  assume "\<not> a < 2"
  then have "\<lceil>a / 2\<rceil> < \<lceil>a\<rceil>" "0 < \<lceil>a\<rceil>"
    by (simp_all add: ceiling_less_iff less_ceiling_iff) linarith+
  then show "(a / 2, a) \<in> measure (\<lambda>a. nat \<lceil>a\<rceil>)" by simp
qed

function doublings :: "rat \<Rightarrow> int" where
  "doublings a = (if a \<le> 0 \<or> 1 \<le> a then 0 else 1 + doublings (2 * a))"
  by pat_completeness auto
termination
proof (relation "measure (\<lambda>a. nat \<lceil>1 / a\<rceil>)")
  show "wf (measure (\<lambda>a::rat. nat \<lceil>1 / a\<rceil>))" by simp
next
  fix a :: rat
  assume "\<not> (a \<le> 0 \<or> 1 \<le> a)"
  then have a: "0 < a" "a < 1" by simp_all
  then have u: "1 < 1 / a" by simp
  have "1 / (2 * a) \<le> of_int \<lceil>1 / a\<rceil> - 1"
  proof -
    have "2 \<le> \<lceil>1 / a\<rceil>" using u by (simp add: le_ceiling_iff)
    then have "(2::rat) \<le> of_int \<lceil>1 / a\<rceil>" by linarith
    moreover have "1 / a \<le> of_int \<lceil>1 / a\<rceil>" by (rule le_of_int_ceiling)
    moreover have "1 / (2 * a) = (1 / a) / 2" by simp
    ultimately show ?thesis by linarith
  qed
  then have "\<lceil>1 / (2 * a)\<rceil> \<le> \<lceil>1 / a\<rceil> - 1"
    by (metis ceiling_le of_int_1 of_int_diff)
  moreover have "0 < \<lceil>1 / a\<rceil>" using a by (simp add: less_ceiling_iff)
  ultimately have "\<lceil>1 / (2 * a)\<rceil> < \<lceil>1 / a\<rceil>" "0 < \<lceil>1 / a\<rceil>" by simp_all
  then show "(2 * a, a) \<in> measure (\<lambda>a. nat \<lceil>1 / a\<rceil>)" by simp
qed

declare halvings.simps [simp del] doublings.simps [simp del]

definition exponent :: "rat \<Rightarrow> int" where
  "exponent a = (if 1 \<le> a then halvings a else - doublings a)"

text \<open>Rounding to the nearest integer, a tie going to the even one.\<close>

definition roundEven :: "rat \<Rightarrow> int" where
  "roundEven x =
     (let f = \<lfloor>x\<rfloor>; r = x - of_int f
      in if r < 1 / 2 then f
         else if 1 / 2 < r then f + 1
         else if even f then f else f + 1)"

text \<open>
  The float64 that a real result is rounded to (round to nearest, ties to even). The
  significand has 53 bits, so the result is a multiple of \<open>2^(e-52)\<close>, where \<open>e\<close> is the
  exponent of the number, and not below -1022 (the subnormal numbers are multiples of
  \<open>2^-1074\<close>); a result of magnitude \<open>2^1024\<close> or more is an infinity.
\<close>

definition float64_of_rat :: "rat \<Rightarrow> float64" where
  "float64_of_rat x =
     (if x = 0 then Fin 0
      else
        (let e = max (exponent \<bar>x\<bar>) (- 1022);
             ulp = 2 powi (e - 52);
             y = of_int (roundEven (\<bar>x\<bar> / ulp)) * ulp
         in if 2 powi 1024 \<le> y then (if 0 < x then PosInf else NegInf)
            else Fin (if 0 < x then y else - y)))"

text \<open>
  \<^verbatim>\<open>a / b\<close> on float64: the quotient, rounded. A finite number divided by zero is an
  infinity of its sign, and \<^verbatim>\<open>0 / 0\<close> is NaN.
\<close>

fun float_div :: "float64 \<Rightarrow> float64 \<Rightarrow> float64" where
  "float_div (Fin a) (Fin b) =
     (if b = 0 then (if a = 0 then NaN else if 0 < a then PosInf else NegInf)
      else float64_of_rat (a / b))"
| "float_div NaN b = NaN"
| "float_div a NaN = NaN"
| "float_div (Fin a) b = Fin 0"
| "float_div a (Fin b) =
     (if (a = PosInf) = (0 \<le> b) then PosInf else NegInf)"
| "float_div a b = NaN"

text \<open>
  A Go slice: the elements it shows (\<^verbatim>\<open>len\<close> of them) and the rest of its backing array
  up to \<^verbatim>\<open>cap\<close>. \<^verbatim>\<open>s[:n]\<close> is checked against the capacity, not the length.
\<close>

record 'a slice =
  elems :: "'a list"
  spare :: "'a list"

definition cap :: "'a slice \<Rightarrow> nat" where
  "cap s = length (elems s) + length (spare s)"

definition reslice :: "'a slice \<Rightarrow> int \<Rightarrow> panic + 'a list" where
  "reslice s n =
     (if n < 0 \<or> int (cap s) < n then Inl SliceBoundsOutOfRange
      else Inr (take (nat n) (elems s @ spare s)))"

text \<open>
  \<^verbatim>\<open>sort.Slice(s, less)\<close> sorts the shown elements in place. The sorting routine is Go's
  library, so it is a parameter: a function from the comparison and the elements to
  their new order.
\<close>

type_synonym 'a sorter = "('a \<Rightarrow> 'a \<Rightarrow> bool) \<Rightarrow> 'a list \<Rightarrow> 'a list"

definition sort_Slice :: "'a sorter \<Rightarrow> 'a slice \<Rightarrow> ('a \<Rightarrow> 'a \<Rightarrow> bool) \<Rightarrow> 'a slice" where
  "sort_Slice srt s lessf = s\<lparr>elems := srt lessf (elems s)\<rparr>"

text \<open>
  What \<^verbatim>\<open>sort.Slice\<close> promises of one call: the elements are rearranged, and afterwards no
  element is \<^verbatim>\<open>less\<close> than one that stands before it.
\<close>

definition sorts_by :: "'a sorter \<Rightarrow> ('a \<Rightarrow> 'a \<Rightarrow> bool) \<Rightarrow> 'a list \<Rightarrow> bool" where
  "sorts_by srt lessf xs =
     (mset (srt lessf xs) = mset xs \<and> sorted_wrt (\<lambda>a b. \<not> lessf b a) (srt lessf xs))"

section \<open>The data model of helper.go\<close>

record ProcMem =
  Mem_Size :: "64 word"
  Mem_Resident :: "64 word"
  Mem_Share :: "64 word"
  Mem_MinorFaults :: "64 word"
  Mem_MajorFaults :: "64 word"
  Mem_PageFaults :: "64 word"

record ProcTime =
  Cpu_StartTime :: "64 word"
  Cpu_User :: "64 word"
  Cpu_Sys :: "64 word"
  Cpu_Total :: "64 word"

record ProcIO =
  IO_ReadChar :: "64 word"
  IO_WriteChar :: "64 word"
  IO_SysCounterRead :: "64 word"
  IO_SysCounterWrite :: "64 word"
  IO_ReadBytes :: "64 word"
  IO_WriteBytes :: "64 word"

record ProcFDUsage =
  FD_Open :: "64 word"
  FD_SoftLimit :: "64 word"
  FD_HardLimit :: "64 word"

text \<open>
  \<^verbatim>\<open>common.MapStr\<close> as held in \<^verbatim>\<open>Process.Env\<close>: a map from variable names to strings, kept
  as an association list with distinct keys. \<^verbatim>\<open>None\<close> is the nil map.
\<close>

type_synonym envmap = "(string \<times> string) list"

text \<open>\<^verbatim>\<open>time.Time\<close> as nanoseconds since the Unix epoch.\<close>

type_synonym time = int

record Process =
  Pid :: int
  Ppid :: int
  Pgid :: int
  Name :: string
  Username :: string
  State :: string
  CmdLine :: string
  Cwd :: string
  Mem :: ProcMem
  Cpu :: ProcTime
  IO :: ProcIO
  Ctime :: time
  FD :: ProcFDUsage
  Env :: "envmap option"
  cpuTotalPct :: float64

record includeTopConfig =
  Enabled :: bool
  ByCPU :: int
  ByMemory :: int

text \<open>
  \<^verbatim>\<open>match.Matcher\<close> is a compiled pattern; the sampler only calls \<^verbatim>\<open>MatchString\<close> on it, so a
  matcher is the predicate it decides.
\<close>

type_synonym Matcher = "string \<Rightarrow> bool"

record ProcStats =
  Procs :: "string list"
  ProcsMap :: "int \<rightharpoonup> Process"
  CpuTicks :: bool
  EnvWhitelist :: "string list"
  CacheCmdLine :: bool
  IncludeTop :: includeTopConfig
  procRegexps :: "Matcher list"
  envRegexps :: "Matcher list"

section \<open>Top-N selection\<close>

fun isProcessInSlice :: "Process list \<Rightarrow> Process \<Rightarrow> bool" where
  "isProcessInSlice [] proc = False"
| "isProcessInSlice (p # processes) proc =
     (if Pid p = Pid proc then True else isProcessInSlice processes proc)"

text \<open>The two comparison closures handed to \<^verbatim>\<open>sort.Slice\<close>.\<close>

definition byCPULess :: "Process \<Rightarrow> Process \<Rightarrow> bool" where
  "byCPULess p q = float_gt (cpuTotalPct p) (cpuTotalPct q)"

definition byMemoryLess :: "Process \<Rightarrow> Process \<Rightarrow> bool" where
  "byMemoryLess p q = (Mem_Resident (Mem p) > Mem_Resident (Mem q))"

text \<open>The body of the loop over \<^verbatim>\<open>processes[:ByMemory]\<close>.\<close>

definition appendIfNew :: "Process \<Rightarrow> Process list \<Rightarrow> Process list" where
  "appendIfNew proc result =
     (if \<not> isProcessInSlice result proc then result @ [proc] else result)"

definition includeTopProcesses ::
  "Process sorter \<Rightarrow> ProcStats \<Rightarrow> Process slice \<Rightarrow> panic + Process list" where
  "includeTopProcesses srt procStats processes =
     (if \<not> Enabled (IncludeTop procStats) \<or>
         (ByCPU (IncludeTop procStats) = 0 \<and> ByMemory (IncludeTop procStats) = 0)
      then Inr (elems processes)
      else
        case
          (if ByCPU (IncludeTop procStats) > 0 then
             (let sorted1 = sort_Slice srt processes byCPULess in
              case reslice sorted1 (ByCPU (IncludeTop procStats)) of
                Inl e \<Rightarrow> Inl e
              | Inr head \<Rightarrow> Inr (sorted1, [] @ head))
           else Inr (processes, []))
        of
          Inl e \<Rightarrow> Inl e
        | Inr (processes1, result) \<Rightarrow>
            if ByMemory (IncludeTop procStats) > 0 then
              (let sorted2 = sort_Slice srt processes1 byMemoryLess in
               case reslice sorted2 (ByMemory (IncludeTop procStats)) of
                 Inl e \<Rightarrow> Inl e
               | Inr head \<Rightarrow> Inr (fold appendIfNew head result))
            else Inr result)"

text \<open>The zero values of the structs.\<close>

definition zeroProcMem :: ProcMem where
  "zeroProcMem = \<lparr>Mem_Size = 0, Mem_Resident = 0, Mem_Share = 0,
     Mem_MinorFaults = 0, Mem_MajorFaults = 0, Mem_PageFaults = 0\<rparr>"

definition zeroProcTime :: ProcTime where
  "zeroProcTime = \<lparr>Cpu_StartTime = 0, Cpu_User = 0, Cpu_Sys = 0, Cpu_Total = 0\<rparr>"

definition zeroProcIO :: ProcIO where
  "zeroProcIO = \<lparr>IO_ReadChar = 0, IO_WriteChar = 0, IO_SysCounterRead = 0,
     IO_SysCounterWrite = 0, IO_ReadBytes = 0, IO_WriteBytes = 0\<rparr>"

definition zeroProcFDUsage :: ProcFDUsage where
  "zeroProcFDUsage = \<lparr>FD_Open = 0, FD_SoftLimit = 0, FD_HardLimit = 0\<rparr>"

definition zeroProcess :: Process where
  "zeroProcess = \<lparr>Pid = 0, Ppid = 0, Pgid = 0, Name = [], Username = [], State = [],
     CmdLine = [], Cwd = [], Mem = zeroProcMem, Cpu = zeroProcTime, IO = zeroProcIO,
     Ctime = 0, FD = zeroProcFDUsage, Env = None, cpuTotalPct = Fin 0\<rparr>"

section \<open>CPU and memory percentages\<close>

text \<open>
  \<^verbatim>\<open>float64(x)\<close> of an integer: the nearest float64, which is the integer itself up to
  \<open>2^53\<close>. An \<^verbatim>\<open>int64\<close> is read as signed, a \<^verbatim>\<open>uint64\<close> as unsigned.
\<close>

definition float64_of_int :: "int \<Rightarrow> float64" where
  "float64_of_int k = float64_of_rat (of_int k)"

definition float64_of_uint64 :: "64 word \<Rightarrow> float64" where
  "float64_of_uint64 x = float64_of_int (uint x)"

definition float64_of_int64 :: "64 word \<Rightarrow> float64" where
  "float64_of_int64 x = float64_of_int (sint x)"

text \<open>
  Modelled from the spec: \<^verbatim>\<open>system.Round(val, roundOn, places)\<close> of
  \<^verbatim>\<open>metricbeat/module/system\<close>, whose source is not among the files. Percentages are
  rounded to a fixed number of decimal digits with round-half-up semantics: the value
  is scaled by \<^verbatim>\<open>10^places\<close>, goes up to the next integer when its fractional part
  reaches \<^verbatim>\<open>roundOn\<close> and down otherwise, and is scaled back. The scaling and the scaling
  back are float64 operations and round; \<^verbatim>\<open>10^places\<close> is a float64 for the up to 22
  places that fit one (the sampler asks for 4). An infinity or NaN has no digits to
  round and is returned as it is, and so is a scaled value that overflowed.
\<close>

fun Round :: "float64 \<Rightarrow> rat \<Rightarrow> nat \<Rightarrow> float64" where
  "Round (Fin val) roundOn places =
     (let pow = 10 ^ places
      in case float64_of_rat (pow * val) of
           Fin digit \<Rightarrow>
             if digit - of_int \<lfloor>digit\<rfloor> \<ge> roundOn
             then float_div (Fin (of_int \<lceil>digit\<rceil>)) (Fin pow)
             else float_div (Fin (of_int \<lfloor>digit\<rfloor>)) (Fin pow)
         | other \<Rightarrow> other)"
| "Round x roundOn places = x"

text \<open>
  \<^verbatim>\<open>t.Sub(u)\<close> of package time: the difference as a \<^verbatim>\<open>Duration\<close>, a signed 64-bit count of
  nanoseconds, which stops at the largest and smallest duration.
\<close>

definition Time_Sub :: "time \<Rightarrow> time \<Rightarrow> 64 word" where
  "Time_Sub t u =
     (let d = t - u
      in if d < - (2 ^ 63) then word_of_int (- (2 ^ 63))
         else if 2 ^ 63 - 1 < d then word_of_int (2 ^ 63 - 1)
         else word_of_int d)"

definition GetProcCpuPercentage :: "Process option \<Rightarrow> Process option \<Rightarrow> float64" where
  "GetProcCpuPercentage previous current =
     (case (previous, current) of
        (Some l, Some c) \<Rightarrow>
          (let dCPU = Cpu_Total (Cpu c) - Cpu_Total (Cpu l);
               dt = float_div (float64_of_int64 (Time_Sub (Ctime c) (Ctime l))) (Fin 1000000);
               perc = float_div (float64_of_int64 dCPU) dt
           in Round perc (1 / 2) 4)
      | _ \<Rightarrow> Fin 0)"

section \<open>The data source\<close>

record ProcState =
  State_Name :: string
  State_Username :: string
  State_State :: char
  State_Ppid :: int
  State_Pgid :: int
  State_Tty :: int
  State_Priority :: int
  State_Nice :: int
  State_Processor :: int

record ProcExe =
  Exe_Name :: string
  Exe_Cwd :: string
  Exe_Root :: string

text \<open>
  The answers of the operating system during one sampling cycle, one field per query
  the sampler makes. A query that fills a struct and returns an error gives a sum; the
  two whose struct is read even after an error (\<^verbatim>\<open>ProcExe\<close>, \<^verbatim>\<open>ProcArgs\<close>) give the struct
  and the error, if any. \<^verbatim>\<open>ds_Now\<close> is the clock reading taken while the process with the
  given PID is created; \<^verbatim>\<open>ds_GetMemory\<close> is \<^verbatim>\<open>memory.GetMemory\<close>, reduced to the total
  physical memory it reports.
\<close>

record datasource =
  ds_Pids :: "go_error + int list"
  ds_ProcState :: "int \<Rightarrow> go_error + ProcState"
  ds_ProcExe :: "int \<Rightarrow> ProcExe \<times> go_error option"
  ds_ProcMem :: "int \<Rightarrow> go_error + ProcMem"
  ds_ProcTime :: "int \<Rightarrow> go_error + ProcTime"
  ds_ProcIO :: "int \<Rightarrow> go_error + ProcIO"
  ds_ProcArgs :: "int \<Rightarrow> string list \<times> go_error option"
  ds_ProcFDUsage :: "int \<Rightarrow> go_error + ProcFDUsage"
  ds_ProcEnv :: "int \<Rightarrow> go_error + envmap"
  ds_GetMemory :: "go_error + 64 word"
  ds_Now :: "int \<Rightarrow> time"
  ds_GOOS :: string
  ds_Getpid :: int

text \<open>
  The queries a cycle makes of the data source while it builds the snapshot, in the
  order it makes them. Every sampler function returns its result together with the
  queries it made.
\<close>

datatype query =
  QPids | QState int | QExe int | QMem int | QTime int | QIO int
  | QArgs int | QFD int | QEnv int

type_synonym 'a queried = "(go_error + 'a) \<times> query list"

text \<open>
  Sequencing of two steps that may fail: an error ends the function with the queries
  made so far (\<^verbatim>\<open>if err != nil { return err }\<close>).
\<close>

definition andThen :: "'a queried \<Rightarrow> ('a \<Rightarrow> 'b queried) \<Rightarrow> 'b queried" where
  "andThen m f =
     (case m of
        (Inl err, t) \<Rightarrow> (Inl err, t)
      | (Inr a, t) \<Rightarrow> (case f a of (r, t') \<Rightarrow> (r, t @ t')))"

text \<open>
  \<^verbatim>\<open>fmt.Errorf(format, pid, err)\<close>: a new error made of text, which is neither a
  not-implemented nor a permission error whatever \<^verbatim>\<open>err\<close> was. The message is kept as the
  format alone.
\<close>

definition Errorf :: "string \<Rightarrow> go_error \<Rightarrow> go_error" where
  "Errorf format err = ErrOther format"

definition Pids :: "datasource \<Rightarrow> int list queried" where
  "Pids ds =
     (case ds_Pids ds of
        Inl err \<Rightarrow> (Inl err, [QPids])
      | Inr list \<Rightarrow> (Inr list, [QPids]))"

definition getProcState :: "char \<Rightarrow> string" where
  "getProcState b =
     (if b = CHR ''S'' then ''sleeping''
      else if b = CHR ''R'' then ''running''
      else if b = CHR ''D'' then ''idle''
      else if b = CHR ''T'' then ''stopped''
      else if b = CHR ''Z'' then ''zombie''
      else ''unknown'')"

definition newProcess :: "datasource \<Rightarrow> int \<Rightarrow> string \<Rightarrow> envmap option \<Rightarrow> Process queried" where
  "newProcess ds pid cmdline env =
     (case ds_ProcState ds pid of
        Inl err \<Rightarrow> (Inl (Errorf ''error getting process state for pid=%d: %v'' err), [QState pid])
      | Inr state \<Rightarrow>
          (case ds_ProcExe ds pid of
             (exe, err) \<Rightarrow>
               (let proc = zeroProcess\<lparr>Pid := pid, Ppid := State_Ppid state,
                      Pgid := State_Pgid state, Name := State_Name state,
                      Username := State_Username state,
                      State := getProcState (State_State state), CmdLine := cmdline,
                      Cwd := Exe_Cwd exe, Ctime := ds_Now ds pid, Env := env\<rparr>
                in case err of
                     None \<Rightarrow> (Inr proc, [QState pid, QExe pid])
                   | Some e \<Rightarrow>
                       if \<not> IsNotImplemented e \<and> \<not> IsPermission e
                       then (Inl (Errorf ''error getting process exe for pid=%d: %v'' e),
                             [QState pid, QExe pid])
                       else (Inr proc, [QState pid, QExe pid]))))"

section \<open>Filters\<close>

text \<open>The loop \<^verbatim>\<open>for _, reg := range regexps { if reg.MatchString(s) { return true } }\<close>.\<close>

fun matchAny :: "Matcher list \<Rightarrow> string \<Rightarrow> bool" where
  "matchAny [] s = False"
| "matchAny (reg # regs) s = (if reg s then True else matchAny regs s)"

definition MatchProcess :: "ProcStats \<Rightarrow> string \<Rightarrow> bool" where
  "MatchProcess procStats name = matchAny (procRegexps procStats) name"

definition isWhitelistedEnvVar :: "ProcStats \<Rightarrow> string \<Rightarrow> bool" where
  "isWhitelistedEnvVar p varName =
     (if length (envRegexps p) = 0 then False
      else matchAny (envRegexps p) varName)"

section \<open>Details of one process\<close>

definition getProcFDUsage :: "datasource \<Rightarrow> int \<Rightarrow> ProcFDUsage option queried" where
  "getProcFDUsage ds pid =
     (if ds_GOOS ds = ''freebsd'' \<and> pid \<noteq> ds_Getpid ds then (Inr None, [])
      else
        case ds_ProcFDUsage ds pid of
          Inl err \<Rightarrow>
            (if IsNotImplemented err then (Inr None, [QFD pid])
             else if IsPermission err then (Inr None, [QFD pid])
             else (Inl err, [QFD pid]))
        | Inr fd \<Rightarrow> (Inr (Some fd), [QFD pid]))"

text \<open>
  The loop of \<^verbatim>\<open>getProcEnv\<close> over \<^verbatim>\<open>env.Vars\<close>, the entries taken in the order of the list
  (Go fixes no order; each entry writes its own key). \<^verbatim>\<open>None\<close> is the nil filter.
\<close>

fun getProcEnv_range :: "(string \<Rightarrow> bool) option \<Rightarrow> envmap \<Rightarrow> envmap \<Rightarrow> envmap" where
  "getProcEnv_range flt [] out = out"
| "getProcEnv_range flt ((k, v) # vars) out =
     (if (case flt of None \<Rightarrow> True | Some f \<Rightarrow> f k)
      then getProcEnv_range flt vars (AList.update k v out)
      else getProcEnv_range flt vars out)"

definition getProcEnv ::
  "datasource \<Rightarrow> int \<Rightarrow> envmap \<Rightarrow> (string \<Rightarrow> bool) option \<Rightarrow> envmap queried" where
  "getProcEnv ds pid out flt =
     (case ds_ProcEnv ds pid of
        Inl err \<Rightarrow>
          (if IsNotImplemented err then (Inr out, [QEnv pid])
           else if IsPermission err then (Inr out, [QEnv pid])
           else (Inl err, [QEnv pid]))
      | Inr vars \<Rightarrow> (Inr (getProcEnv_range flt vars out), [QEnv pid]))"

text \<open>\<^verbatim>\<open>strings.Join(a, sep)\<close>.\<close>

fun strings_Join :: "string list \<Rightarrow> string \<Rightarrow> string" where
  "strings_Join [] sep = []"
| "strings_Join [a] sep = a"
| "strings_Join (a # b # rest) sep = a @ sep @ strings_Join (b # rest) sep"

text \<open>
  \<^verbatim>\<open>getDetails\<close> fills the process in place and stops at the first error; its caller
  drops the process then, so the model returns the filled process or the error. The five
  blocks of the function are the five steps below.
\<close>

definition getDetails_mem :: "datasource \<Rightarrow> Process \<Rightarrow> Process queried" where
  "getDetails_mem ds proc =
     (case ds_ProcMem ds (Pid proc) of
        Inl err \<Rightarrow> (Inl (Errorf ''error getting process mem for pid=%d: %v'' err), [QMem (Pid proc)])
      | Inr mem \<Rightarrow> (Inr (proc\<lparr>Mem := mem\<rparr>), [QMem (Pid proc)]))"

definition getDetails_cpu :: "datasource \<Rightarrow> Process \<Rightarrow> Process queried" where
  "getDetails_cpu ds proc =
     (case ds_ProcTime ds (Pid proc) of
        Inl err \<Rightarrow>
          (Inl (Errorf ''error getting process cpu time for pid=%d: %v'' err), [QTime (Pid proc)])
      | Inr cpu \<Rightarrow> (Inr (proc\<lparr>Cpu := cpu\<rparr>), [QTime (Pid proc)]))"

definition getDetails_io :: "datasource \<Rightarrow> Process \<Rightarrow> Process queried" where
  "getDetails_io ds proc =
     (case ds_ProcIO ds (Pid proc) of
        Inl err \<Rightarrow> (Inl (Errorf ''error getting process io for pid=%d: %v'' err), [QIO (Pid proc)])
      | Inr io \<Rightarrow> (Inr (proc\<lparr>IO := io\<rparr>), [QIO (Pid proc)]))"

definition getDetails_cmdline :: "datasource \<Rightarrow> Process \<Rightarrow> Process queried" where
  "getDetails_cmdline ds proc =
     (if CmdLine proc = [] then
        (case ds_ProcArgs ds (Pid proc) of
           (args, err) \<Rightarrow>
             (let joined = proc\<lparr>CmdLine := strings_Join args '' ''\<rparr>
              in case err of
                   None \<Rightarrow> (Inr joined, [QArgs (Pid proc)])
                 | Some e \<Rightarrow>
                     if \<not> IsNotImplemented e
                     then (Inl (Errorf ''error getting process arguments for pid=%d: %v'' e),
                           [QArgs (Pid proc)])
                     else (Inr joined, [QArgs (Pid proc)])))
      else (Inr proc, []))"

definition getDetails_fd :: "datasource \<Rightarrow> Process \<Rightarrow> Process queried" where
  "getDetails_fd ds proc =
     (case getProcFDUsage ds (Pid proc) of
        (Inl err, t) \<Rightarrow>
          (Inl (Errorf ''error getting process file descriptor usage for pid=%d: %v'' err), t)
      | (Inr fd, t) \<Rightarrow>
          (case fd of
             Some usage \<Rightarrow> (Inr (proc\<lparr>FD := usage\<rparr>), t)
           | None \<Rightarrow> (Inr proc, t)))"

definition getDetails_env ::
  "datasource \<Rightarrow> (string \<Rightarrow> bool) option \<Rightarrow> Process \<Rightarrow> Process queried" where
  "getDetails_env ds envPredicate proc =
     (if Env proc = None then
        (case getProcEnv ds (Pid proc) [] envPredicate of
           (Inl err, t) \<Rightarrow>
             (Inl (Errorf ''error getting process environment variables for pid=%d: %v'' err), t)
         | (Inr out, t) \<Rightarrow> (Inr (proc\<lparr>Env := Some out\<rparr>), t))
      else (Inr proc, []))"

definition getDetails ::
  "datasource \<Rightarrow> (string \<Rightarrow> bool) option \<Rightarrow> Process \<Rightarrow> Process queried" where
  "getDetails ds envPredicate proc =
     andThen (getDetails_mem ds proc) (\<lambda>proc.
     andThen (getDetails_cpu ds proc) (\<lambda>proc.
     andThen (getDetails_io ds proc) (\<lambda>proc.
     andThen (getDetails_cmdline ds proc) (\<lambda>proc.
     andThen (getDetails_fd ds proc) (\<lambda>proc.
     getDetails_env ds envPredicate proc)))))"

section \<open>The event of a process\<close>

text \<open>
  The values an event holds, and \<^verbatim>\<open>common.MapStr\<close> as an association list from keys to
  values (one entry per key; a struct literal lists them in the order of the source).
\<close>

datatype val =
  VInt int | VUint64 "64 word" | VStr string | VFloat float64 | VTime time
  | VMap "(string \<times> val) list"

type_synonym MapStr = "(string \<times> val) list"

text \<open>
  Modelled from the spec: \<^verbatim>\<open>MapStr.Put(key, value)\<close> of \<^verbatim>\<open>libbeat/common\<close>, whose source is
  not among the files. The record has nested groups, and a dotted key such as
  \<^verbatim>\<open>cpu.total.ticks\<close> names a place inside them: the key is given here as its path, groups
  on the way are entered (and made when absent), and the value is stored under the last
  name. When something on the way is not a group the call fails; the sampler ignores the
  error, and the record is unchanged.
\<close>

fun Put :: "string list \<Rightarrow> val \<Rightarrow> MapStr \<Rightarrow> MapStr" where
  "Put [] v m = m"
| "Put [k] v m = AList.update k v m"
| "Put (k # ks) v m =
     (case map_of m k of
        None \<Rightarrow> AList.update k (VMap (Put ks v [])) m
      | Some (VMap sub) \<Rightarrow> AList.update k (VMap (Put ks v sub)) m
      | Some other \<Rightarrow> m)"

definition GetProcMemPercentage :: "datasource \<Rightarrow> Process \<Rightarrow> 64 word \<Rightarrow> float64" where
  "GetProcMemPercentage ds proc totalPhyMem =
     (case (if totalPhyMem = 0
            then (case ds_GetMemory ds of Inl err \<Rightarrow> None | Inr totalMem \<Rightarrow> Some totalMem)
            else Some totalPhyMem) of
        None \<Rightarrow> Fin 0
      | Some totalMem \<Rightarrow>
          (let perc = float_div (float64_of_uint64 (Mem_Resident (Mem proc)))
                        (float64_of_uint64 totalMem)
           in Round perc (1 / 2) 4))"

text \<open>
  \<^verbatim>\<open>time.Unix(0, int64(unixTimeMs*1000000))\<close>: the product wraps as an unsigned 64-bit
  number and is then read as signed nanoseconds.
\<close>

definition unixTimeMsToTime :: "64 word \<Rightarrow> time" where
  "unixTimeMsToTime unixTimeMs = sint (unixTimeMs * 1000000)"

definition envValue :: "envmap \<Rightarrow> val" where
  "envValue env = VMap (map (\<lambda>(k, v). (k, VStr v)) env)"

text \<open>
  \<^verbatim>\<open>getProcessEvent\<close>, block by block: the literal the record starts as, the three
  optional entries, the \<^verbatim>\<open>cpu\<close> group, the tick counters and the \<^verbatim>\<open>fd\<close> group.
\<close>

definition event_literal :: "datasource \<Rightarrow> Process \<Rightarrow> MapStr" where
  "event_literal ds process =
     [(''pid'', VInt (Pid process)),
      (''ppid'', VInt (Ppid process)),
      (''pgid'', VInt (Pgid process)),
      (''name'', VStr (Name process)),
      (''state'', VStr (State process)),
      (''username'', VStr (Username process)),
      (''memory'', VMap
         [(''size'', VUint64 (Mem_Size (Mem process))),
          (''rss'', VMap
             [(''bytes'', VUint64 (Mem_Resident (Mem process))),
              (''pct'', VFloat (GetProcMemPercentage ds process 0))]),
          (''share'', VUint64 (Mem_Share (Mem process)))]),
      (''io'', VMap
         [(''read_char'', VUint64 (IO_ReadChar (IO process))),
          (''write_char'', VUint64 (IO_WriteChar (IO process))),
          (''read_count'', VUint64 (IO_SysCounterRead (IO process))),
          (''write_count'', VUint64 (IO_SysCounterWrite (IO process))),
          (''read_bytes'', VUint64 (IO_ReadBytes (IO process))),
          (''write_bytes'', VUint64 (IO_WriteBytes (IO process)))])]"

definition event_cmdline :: "Process \<Rightarrow> MapStr \<Rightarrow> MapStr" where
  "event_cmdline process proc =
     (if CmdLine process \<noteq> [] then AList.update ''cmdline'' (VStr (CmdLine process)) proc
      else proc)"

definition event_cwd :: "Process \<Rightarrow> MapStr \<Rightarrow> MapStr" where
  "event_cwd process proc =
     (if Cwd process \<noteq> [] then AList.update ''cwd'' (VStr (Cwd process)) proc else proc)"

definition event_env :: "Process \<Rightarrow> MapStr \<Rightarrow> MapStr" where
  "event_env process proc =
     (case Env process of
        None \<Rightarrow> proc
      | Some env \<Rightarrow>
          if length env > 0 then AList.update ''env'' (envValue env) proc else proc)"

definition event_cpu :: "Process \<Rightarrow> MapStr \<Rightarrow> MapStr" where
  "event_cpu process proc =
     AList.update ''cpu'' (VMap
       [(''total'', VMap [(''pct'', VFloat (cpuTotalPct process))]),
        (''start_time'', VTime (unixTimeMsToTime (Cpu_StartTime (Cpu process))))])
       proc"

definition event_ticks :: "ProcStats \<Rightarrow> Process \<Rightarrow> MapStr \<Rightarrow> MapStr" where
  "event_ticks procStats process proc =
     (if CpuTicks procStats
      then Put [''cpu'', ''total'', ''ticks''] (VUint64 (Cpu_Total (Cpu process)))
             (Put [''cpu'', ''system''] (VUint64 (Cpu_Sys (Cpu process)))
                (Put [''cpu'', ''user''] (VUint64 (Cpu_User (Cpu process))) proc))
      else proc)"

definition event_fd :: "Process \<Rightarrow> MapStr \<Rightarrow> MapStr" where
  "event_fd process proc =
     (if FD process \<noteq> zeroProcFDUsage
      then AList.update ''fd'' (VMap
             [(''open'', VUint64 (FD_Open (FD process))),
              (''limit'', VMap
                 [(''soft'', VUint64 (FD_SoftLimit (FD process))),
                  (''hard'', VUint64 (FD_HardLimit (FD process)))])])
             proc
      else proc)"

definition getProcessEvent :: "datasource \<Rightarrow> ProcStats \<Rightarrow> Process \<Rightarrow> MapStr" where
  "getProcessEvent ds procStats process =
     event_fd process
       (event_ticks procStats process
          (event_cpu process
             (event_env process
                (event_cwd process
                   (event_cmdline process
                      (event_literal ds process))))))"

section \<open>One sampling cycle\<close>

text \<open>
  The start of the loop body of \<^verbatim>\<open>GetProcStats\<close>: the command line and the environment
  handed to \<^verbatim>\<open>newProcess\<close>, taken from the previous snapshot's process of the same PID.
\<close>

definition previousDetails :: "ProcStats \<Rightarrow> int \<Rightarrow> string \<times> envmap option" where
  "previousDetails procStats pid =
     (case ProcsMap procStats pid of
        None \<Rightarrow> ([], None)
      | Some previousProc \<Rightarrow>
          (if CacheCmdLine procStats then CmdLine previousProc else [], Env previousProc))"

text \<open>
  What the loop carries from one PID to the next: the processes appended so far, the new
  snapshot, and the queries made.
\<close>

type_synonym sweep = "Process list \<times> (int \<rightharpoonup> Process) \<times> query list"

definition GetProcStats_body :: "datasource \<Rightarrow> ProcStats \<Rightarrow> int \<Rightarrow> sweep \<Rightarrow> sweep" where
  "GetProcStats_body ds procStats pid acc =
     (case acc of
        (processes, newProcs, queries) \<Rightarrow>
          (case previousDetails procStats pid of
             (cmdline, env) \<Rightarrow>
               (case newProcess ds pid cmdline env of
                  (Inl err, t1) \<Rightarrow> (processes, newProcs, queries @ t1)
                | (Inr process, t1) \<Rightarrow>
                    if MatchProcess procStats (Name process) then
                      (case getDetails ds (Some (isWhitelistedEnvVar procStats)) process of
                         (Inl err, t2) \<Rightarrow> (processes, newProcs, queries @ t1 @ t2)
                       | (Inr detailed, t2) \<Rightarrow>
                           (let previous = ProcsMap procStats (Pid detailed);
                                process' = detailed\<lparr>cpuTotalPct :=
                                  GetProcCpuPercentage previous (Some detailed)\<rparr>
                            in (processes @ [process'],
                                newProcs(Pid process' \<mapsto> process'),
                                queries @ t1 @ t2)))
                    else (processes, newProcs, queries @ t1))))"

text \<open>
  What the Go runtime decides: how \<^verbatim>\<open>sort.Slice\<close> orders, and how much capacity beyond its
  length the slice \<^verbatim>\<open>processes\<close> has after its appends (the array \<^verbatim>\<open>append\<close> allocates is
  zeroed, so the spare elements are zero processes).
\<close>

record goruntime =
  rt_sort :: "Process sorter"
  rt_spare :: "nat \<Rightarrow> nat"

text \<open>
  The result of a cycle: the sampler's state afterwards, the queries made, and either a
  panic or what the function returns (the events, \<^verbatim>\<open>None\<close> for a nil slice, and the
  error).
\<close>

definition GetProcStats ::
  "goruntime \<Rightarrow> datasource \<Rightarrow> ProcStats
     \<Rightarrow> ProcStats \<times> query list \<times> (panic + (MapStr list option \<times> go_error option))" where
  "GetProcStats rt ds procStats =
     (if length (Procs procStats) = 0 then (procStats, [], Inr (None, None))
      else
        case Pids ds of
          (Inl err, t) \<Rightarrow> (procStats, t, Inr (None, Some err))
        | (Inr pids, t) \<Rightarrow>
            (case fold (GetProcStats_body ds procStats) pids ([], Map.empty, t) of
               (processes, newProcs, queries) \<Rightarrow>
                 (let procStats' = procStats\<lparr>ProcsMap := newProcs\<rparr>
                  in case includeTopProcesses (rt_sort rt) procStats'
                            \<lparr>elems = processes,
                             spare = replicate (rt_spare rt (length processes)) zeroProcess\<rparr> of
                       Inl p \<Rightarrow> (procStats', queries, Inl p)
                     | Inr selected \<Rightarrow>
                         (procStats', queries,
                          Inr (Some (map (getProcessEvent ds procStats') selected), None)))))"

section \<open>The Linux data source: process state\<close>

text \<open>\<^verbatim>\<open>strings.SplitAfterN(s, sep, 2)\<close> for a separator of one byte.\<close>

fun SplitAfterN2 :: "string \<Rightarrow> char \<Rightarrow> string list" where
  "SplitAfterN2 [] sep = [[]]"
| "SplitAfterN2 (c # cs) sep =
     (if c = sep then [[c], cs]
      else case SplitAfterN2 cs sep of
             [] \<Rightarrow> []
           | a # rest \<Rightarrow> (c # a) # rest)"

text \<open>
  \<^verbatim>\<open>strings.Fields(s)\<close>: the maximal runs of bytes that are not white space. The white
  space is that of ASCII; the files read here are ASCII.
\<close>

definition isSpace :: "char \<Rightarrow> bool" where
  "isSpace c = (c \<in> set [CHR 0x09, CHR 0x0A, CHR 0x0B, CHR 0x0C, CHR 0x0D, CHR '' ''])"

fun Fields_from :: "string \<Rightarrow> string \<Rightarrow> string list" where
  "Fields_from word [] = (if word = [] then [] else [word])"
| "Fields_from word (c # cs) =
     (if isSpace c
      then (if word = [] then Fields_from [] cs else word # Fields_from [] cs)
      else Fields_from (word @ [c]) cs)"

definition Fields :: "string \<Rightarrow> string list" where
  "Fields s = Fields_from [] s"

text \<open>\<^verbatim>\<open>xs[i]\<close>, which panics when the index is out of range.\<close>

definition index :: "'a list \<Rightarrow> nat \<Rightarrow> panic + 'a" where
  "index xs i = (if i < length xs then Inr (xs ! i) else Inl IndexOutOfRange)"

definition orPanic :: "panic + 'a \<Rightarrow> ('a \<Rightarrow> panic + 'b) \<Rightarrow> panic + 'b" where
  "orPanic m f = (case m of Inl p \<Rightarrow> Inl p | Inr a \<Rightarrow> f a)"

text \<open>
  What \<^verbatim>\<open>ProcState.Get\<close> reads outside its own code: the files under \<^verbatim>\<open>/proc/[pid]\<close>, the
  parsed \<^verbatim>\<open>status\<close> file, the user database, and \<^verbatim>\<open>strconv.Atoi\<close> (its number; the error is
  dropped by every call here).
\<close>

record procfs =
  pf_readProcFile :: "int \<Rightarrow> string \<Rightarrow> go_error + string"
  pf_getProcStatus :: "int \<Rightarrow> go_error + (string \<times> string) list"
  pf_LookupId :: "string \<Rightarrow> go_error + string"
  pf_Atoi :: "string \<Rightarrow> int"

definition getUIDs :: "(string \<times> string) list \<Rightarrow> go_error + string list" where
  "getUIDs status =
     (case map_of status ''Uid'' of
        None \<Rightarrow> Inl (ErrOther ''Uid not found in proc status'')
      | Some uidLine \<Rightarrow>
          (let uidStrs = Fields uidLine
           in if length uidStrs \<noteq> 4
              then Inl (ErrOther ''Uid line ('%s') did not contain four values'')
              else Inr uidStrs))"

text \<open>The last part of \<^verbatim>\<open>ProcState.Get\<close>: the user name, from the UID of the status file.\<close>

definition ProcState_Username :: "procfs \<Rightarrow> int \<Rightarrow> ProcState \<Rightarrow> panic + (go_error + ProcState)" where
  "ProcState_Username pf pid self =
     (case pf_getProcStatus pf pid of
        Inl err \<Rightarrow> Inr (Inl (Errorf ''failed to read process status for pid %d. %v'' err))
      | Inr status \<Rightarrow>
          (case getUIDs status of
             Inl err \<Rightarrow> Inr (Inl (Errorf ''failed to read process status for pid %d. %v'' err))
           | Inr uids \<Rightarrow>
               orPanic (index uids 0) (\<lambda>uid.
                 case pf_LookupId pf uid of
                   Inr username \<Rightarrow> Inr (Inr (self\<lparr>State_Username := username\<rparr>))
                 | Inl err \<Rightarrow> Inr (Inr (self\<lparr>State_Username := uid\<rparr>)))))"

definition zeroProcState :: ProcState where
  "zeroProcState = \<lparr>State_Name = [], State_Username = [], State_State = CHR 0x00,
     State_Ppid = 0, State_Pgid = 0, State_Tty = 0, State_Priority = 0, State_Nice = 0,
     State_Processor = 0\<rparr>"

text \<open>
  \<^verbatim>\<open>ProcState.Get\<close> on a fresh \<^verbatim>\<open>ProcState\<close>. An index out of range is a panic; an
  unreadable file or a malformed name is the error the function returns.
\<close>

definition ProcState_Get :: "procfs \<Rightarrow> int \<Rightarrow> panic + (go_error + ProcState)" where
  "ProcState_Get pf pid =
     (case pf_readProcFile pf pid ''stat'' of
        Inl err \<Rightarrow> Inr (Inl err)
      | Inr contents \<Rightarrow>
          (let headerAndStats = SplitAfterN2 contents CHR '')''
           in orPanic (index headerAndStats 0) (\<lambda>pidAndName.
              orPanic (index headerAndStats 1) (\<lambda>stats.
              let fields = Fields stats
              in orPanic (index (SplitAfterN2 pidAndName CHR '' '') 1) (\<lambda>name.
                 orPanic (index name 0) (\<lambda>first.
                 if first = CHR ''('' \<and> last name = CHR '')''
                 then
                   (let self1 = zeroProcState\<lparr>State_Name := take (length name - 2) (drop 1 name)\<rparr>
                    in orPanic (index fields 0) (\<lambda>f0.
                       orPanic (index f0 0) (\<lambda>st.
                       orPanic (index fields 1) (\<lambda>f1.
                       orPanic (index fields 2) (\<lambda>f2.
                       orPanic (index fields 4) (\<lambda>f4.
                       orPanic (index fields 15) (\<lambda>f15.
                       orPanic (index fields 16) (\<lambda>f16.
                       orPanic (index fields 36) (\<lambda>f36.
                       ProcState_Username pf pid
                         (self1\<lparr>State_State := st, State_Ppid := pf_Atoi pf f1,
                            State_Pgid := pf_Atoi pf f2, State_Tty := pf_Atoi pf f4,
                            State_Priority := pf_Atoi pf f15, State_Nice := pf_Atoi pf f16,
                            State_Processor := pf_Atoi pf f36\<rparr>))))))))))
                 else Inr (Inl (ErrOther ''Malformed process stats for pid %d''))))))))"

section \<open>Data sources and configurations to run the sampler on\<close>

text \<open>
  A sorting routine to run the selection with: insertion sort, which puts an element
  before the first one that is not \<^verbatim>\<open>less\<close> than it.
\<close>

fun insertBy :: "('a \<Rightarrow> 'a \<Rightarrow> bool) \<Rightarrow> 'a \<Rightarrow> 'a list \<Rightarrow> 'a list" where
  "insertBy lessf x [] = [x]"
| "insertBy lessf x (y # ys) =
     (if lessf y x then y # insertBy lessf x ys else x # y # ys)"

definition insertionSort :: "'a sorter" where
  "insertionSort lessf xs = foldr (insertBy lessf) xs []"

text \<open>A process with the given PID, CPU percentage and resident memory.\<close>

definition sampleProcess :: "int \<Rightarrow> rat \<Rightarrow> 64 word \<Rightarrow> Process" where
  "sampleProcess pid pct rss =
     zeroProcess\<lparr>Pid := pid, Mem := zeroProcMem\<lparr>Mem_Resident := rss\<rparr>,
       cpuTotalPct := Fin pct\<rparr>"

text \<open>A configuration that holds nothing but a top-N policy.\<close>

definition topConfig :: "bool \<Rightarrow> int \<Rightarrow> int \<Rightarrow> ProcStats" where
  "topConfig en n m =
     \<lparr>Procs = [], ProcsMap = Map.empty, CpuTicks = False, EnvWhitelist = [],
      CacheCmdLine = False,
      IncludeTop = \<lparr>Enabled = en, ByCPU = n, ByMemory = m\<rparr>,
      procRegexps = [], envRegexps = []\<rparr>"

definition zeroProcExe :: ProcExe where
  "zeroProcExe = \<lparr>Exe_Name = [], Exe_Cwd = [], Exe_Root = []\<rparr>"

text \<open>
  A host that shows one process: its PID, its name, its arguments, the answer to the
  file-descriptor query, its environment, and the clock reading of the cycle. The total
  physical memory is 1024 bytes.
\<close>

definition singleSource ::
  "int \<Rightarrow> string \<Rightarrow> string list \<Rightarrow> go_error + ProcFDUsage \<Rightarrow> envmap \<Rightarrow> time \<Rightarrow> datasource" where
  "singleSource pid name args fd env now =
     \<lparr>ds_Pids = Inr [pid],
      ds_ProcState = (\<lambda>p. if p = pid
         then Inr (zeroProcState\<lparr>State_Name := name, State_State := CHR ''S''\<rparr>)
         else Inl (ErrOther ''no such process'')),
      ds_ProcExe = (\<lambda>p. (zeroProcExe\<lparr>Exe_Cwd := ''/''\<rparr>, None)),
      ds_ProcMem = (\<lambda>p. Inr zeroProcMem),
      ds_ProcTime = (\<lambda>p. Inr zeroProcTime),
      ds_ProcIO = (\<lambda>p. Inr zeroProcIO),
      ds_ProcArgs = (\<lambda>p. (args, None)),
      ds_ProcFDUsage = (\<lambda>p. fd),
      ds_ProcEnv = (\<lambda>p. Inr env),
      ds_GetMemory = Inr 1024,
      ds_Now = (\<lambda>p. now),
      ds_GOOS = ''linux'',
      ds_Getpid = 0\<rparr>"

text \<open>
  A sampler that matches every process name, with the given command-line caching flag,
  environment allow-list and snapshot, and no top-N selection.
\<close>

definition samplerConfig :: "bool \<Rightarrow> Matcher list \<Rightarrow> (int \<rightharpoonup> Process) \<Rightarrow> ProcStats" where
  "samplerConfig cache allow snapshot =
     \<lparr>Procs = [''.*''], ProcsMap = snapshot, CpuTicks = False, EnvWhitelist = [],
      CacheCmdLine = cache,
      IncludeTop = \<lparr>Enabled = False, ByCPU = 0, ByMemory = 0\<rparr>,
      procRegexps = [\<lambda>name. True], envRegexps = allow\<rparr>"

definition plainRuntime :: goruntime where
  "plainRuntime = \<lparr>rt_sort = insertionSort, rt_spare = (\<lambda>n. 0)\<rparr>"

text \<open>A matcher for the names that start with the given text.\<close>

definition hasPrefix :: "string \<Rightarrow> Matcher" where
  "hasPrefix pre s = (take (length pre) s = pre)"

text \<open>
  A sample of a process that holds nothing but its accumulated total CPU time, in
  milliseconds, and the time it was taken at.
\<close>

definition cpuSample :: "64 word \<Rightarrow> time \<Rightarrow> Process" where
  "cpuSample ms t = zeroProcess\<lparr>Cpu := zeroProcTime\<lparr>Cpu_Total := ms\<rparr>, Ctime := t\<rparr>"

text \<open>
  The \<^verbatim>\<open>stat\<close> file of a process 7 whose executable is named \<^verbatim>\<open>a)b\<close>: the kernel writes the
  name between parentheses as it is. The process sleeps (\<^verbatim>\<open>S\<close>), its parent is process 1.
\<close>

definition statOfParenName :: string where
  "statOfParenName =
     ''7 (a)b) S 1 7 7 0 -1 4194560 120 0 0 0 3 4 0 0 20 0 1 0 250 1000000 100 '' @
     ''18446744073709551615 1 1 0 0 0 0 0 0 0 0 0 0 17 2 0 0 0 0 0 0 0 0 0 0 0 0 0''"

text \<open>
  A \<^verbatim>\<open>/proc\<close> whose \<^verbatim>\<open>stat\<close> file has the given contents, with a status file owned by UID 0,
  which the user database knows as \<^verbatim>\<open>root\<close>.
\<close>

definition procfsWithStat :: "string \<Rightarrow> (string \<Rightarrow> int) \<Rightarrow> procfs" where
  "procfsWithStat contents atoi =
     \<lparr>pf_readProcFile = (\<lambda>pid name. Inr contents),
      pf_getProcStatus = (\<lambda>pid. Inr [(''Name'', ''a)b''), (''Uid'', ''0 0 0 0'')]),
      pf_LookupId = (\<lambda>uid. Inr ''root''),
      pf_Atoi = atoi\<rparr>"
section \<open>Rounding to float64\<close>

lemma floor_numeral_div:
  "\<lfloor>(numeral a :: rat) / numeral b\<rfloor> = numeral a div numeral b"
  "\<lfloor>- (numeral a :: rat) / numeral b\<rfloor> = - numeral a div numeral b"
  "\<lfloor>- ((numeral a :: rat) / numeral b)\<rfloor> = - numeral a div numeral b"
  using floor_divide_of_int_eq [of "numeral a" "numeral b", where ?'a = rat]
    floor_divide_of_int_eq [of "- numeral a" "numeral b", where ?'a = rat]
  by simp_all

lemmas float_eval = float64_of_rat_def float64_of_int_def exponent_def roundEven_def Let_def
  floor_numeral_div halvings.simps doublings.simps

lemma halvings_bounds:
  "1 \<le> a \<Longrightarrow> 0 \<le> halvings a \<and> 2 powi (halvings a) \<le> a \<and> a < 2 powi (halvings a + 1)"
proof (induction a rule: halvings.induct)
  case (1 a)
  show ?case
  proof (cases "a < 2")
    case True
    then have "halvings a = 0" by (simp add: halvings.simps [of a])
    then show ?thesis using 1(2) True by simp
  next
    case False
    then have "1 \<le> a / 2" by simp
    from 1(1) [OF False this] have ih: "0 \<le> halvings (a / 2)"
      "2 powi (halvings (a / 2)) \<le> a / 2" "a / 2 < 2 powi (halvings (a / 2) + 1)" by simp_all
    have h: "halvings a = 1 + halvings (a / 2)" using False by (simp add: halvings.simps [of a])
    have p: "(2::rat) powi (1 + halvings (a / 2)) = 2 * 2 powi (halvings (a / 2))"
      by (simp add: power_int_add)
    have q: "(2::rat) powi (1 + halvings (a / 2) + 1) = 2 * 2 powi (halvings (a / 2) + 1)"
      by (simp add: power_int_add)
    show ?thesis unfolding h p q using ih by simp
  qed
qed

lemma doublings_bounds:
  "0 < a \<Longrightarrow> a < 1 \<Longrightarrow> 2 powi (- doublings a) \<le> a \<and> a < 2 powi (- doublings a + 1)"
proof (induction a rule: doublings.induct)
  case (1 a)
  have na: "\<not> (a \<le> 0 \<or> 1 \<le> a)" using 1(2,3) by simp
  have h: "doublings a = 1 + doublings (2 * a)" using na by (simp add: doublings.simps [of a])
  show ?case
  proof (cases "2 * a < 1")
    case True
    have pos: "0 < 2 * a" using 1(2) by simp
    from 1(1) [OF na pos True] have ih: "2 powi (- doublings (2 * a)) \<le> 2 * a"
      "2 * a < 2 powi (- doublings (2 * a) + 1)" by simp_all
    define d where "d = doublings (2 * a)"
    define P where "P = (2::rat) powi (- 1 - d)"
    have "(2::rat) powi (1 + (- 1 - d)) = 2 powi 1 * 2 powi (- 1 - d)"
      by (rule power_int_add) simp
    then have p: "(2::rat) powi (- d) = 2 * P" by (simp add: P_def)
    have "(2::rat) powi (1 + (- d)) = 2 powi 1 * 2 powi (- d)"
      by (rule power_int_add) simp
    then have q: "(2::rat) powi (- d + 1) = 2 * (2 * P)" using p by (simp add: add.commute)
    have r: "- (1 + d) = - 1 - d" "- (1 + d) + 1 = - d" by simp_all
    have "P \<le> a" "a < 2 * P" using ih unfolding d_def [symmetric] p q by simp_all
    moreover have "(2::rat) powi (- (1 + d)) = P" by (simp add: P_def)
    moreover have "(2::rat) powi (- (1 + d) + 1) = 2 * P" using p by simp
    ultimately have "2 powi (- (1 + d)) \<le> a \<and> a < 2 powi (- (1 + d) + 1)"
      by simp
    then show ?thesis unfolding h d_def .
  next
    case False
    then have "doublings (2 * a) = 0" by (simp add: doublings.simps [of "2 * a"])
    then have "doublings a = 1" using h by simp
    then show ?thesis using False 1(3) by (simp add: power_int_minus)
  qed
qed


lemma exponent_bounds:
  assumes "0 < a"
  shows "2 powi (exponent a) \<le> a" "a < 2 powi (exponent a + 1)"
  using assms halvings_bounds [of a] doublings_bounds [of a]
  by (auto simp add: exponent_def)

lemma powi_mono: "i \<le> j \<Longrightarrow> (2::rat) powi i \<le> 2 powi j"
  by (rule power_int_increasing) simp_all

lemma powi_less_imp: "(2::rat) powi i < 2 powi j \<Longrightarrow> i < j"
  using powi_mono [of j i] by (cases "i < j") simp_all

lemma exponent_ge: "0 < a \<Longrightarrow> 2 powi i \<le> a \<Longrightarrow> i \<le> exponent a"
  using exponent_bounds(2) [of a] powi_less_imp [of i "exponent a + 1"] by simp

lemma exponent_le: "0 < a \<Longrightarrow> a \<le> 2 powi j \<Longrightarrow> exponent a \<le> j"
proof -
  assume a: "0 < a" "a \<le> 2 powi j"
  show ?thesis
  proof (rule ccontr)
    assume "\<not> exponent a \<le> j"
    then have "j + 1 \<le> exponent a" by simp
    then have "(2::rat) powi (j + 1) \<le> 2 powi (exponent a)" by (rule powi_mono)
    moreover have "(2::rat) powi j < 2 powi (j + 1)" by (simp add: power_int_add)
    ultimately show False using exponent_bounds(1) [OF a(1)] a(2) by simp
  qed
qed

lemma roundEven_ge: "of_int k \<le> x \<Longrightarrow> k \<le> roundEven x"
proof -
  assume "of_int k \<le> x"
  then have "k \<le> \<lfloor>x\<rfloor>" by (simp add: le_floor_iff)
  then show ?thesis by (simp add: roundEven_def Let_def)
qed

lemma roundEven_le: "x \<le> of_int k \<Longrightarrow> roundEven x \<le> k"
proof (cases "x = of_int k")
  case True
  then show ?thesis by (simp add: roundEven_def Let_def)
next
  case False
  assume "x \<le> of_int k"
  then have "x < of_int k" using False by simp
  then have "\<lfloor>x\<rfloor> < k" by (simp add: floor_less_iff)
  then show ?thesis by (simp add: roundEven_def Let_def)
qed


lemma powi_pos: "0 < (2::rat) powi k"
  by (simp add: zero_less_power_int)

lemma powi_split: "(2::rat) powi (a - b) * 2 powi b = 2 powi a"
  using power_int_add [of "2::rat" "a - b" b] by simp

lemma powi_nat: "0 \<le> k \<Longrightarrow> (2::rat) powi k = of_int (2 ^ nat k)"
  by (simp add: power_int_def)

lemma float64_of_rat_finite:
  assumes "\<bar>x\<bar> \<le> 2 powi j" "- 1022 \<le> j" "j \<le> 1023"
  shows "\<exists>y. float64_of_rat x = Fin y \<and> \<bar>y\<bar> \<le> 2 powi j \<and> (0 \<le> x \<longrightarrow> 0 \<le> y) \<and> (x \<le> 0 \<longrightarrow> y \<le> 0)"
proof (cases "x = 0")
  case True
  then show ?thesis using powi_pos [of j] by (simp add: float64_of_rat_def)
next
  case False
  define a where "a = \<bar>x\<bar>"
  define e where "e = max (exponent a) (- 1022)"
  define ulp where "ulp = (2::rat) powi (e - 52)"
  define n where "n = roundEven (a / ulp)"
  define K :: int where "K = 2 ^ nat (j - e + 52)"
  have a: "0 < a" using False by (simp add: a_def)
  have ej: "e \<le> j" using exponent_le [OF a] assms(1,2) by (simp add: e_def a_def)
  have ulp: "0 < ulp" by (simp add: ulp_def powi_pos)
  have "(2::rat) powi (j - e + 52) = of_int K" using ej by (simp add: K_def powi_nat)
  moreover have "(2::rat) powi (j - (e - 52)) * 2 powi (e - 52) = 2 powi j" by (rule powi_split)
  moreover have "j - (e - 52) = j - e + 52" by simp
  ultimately have K: "of_int K * ulp = 2 powi j" by (simp add: ulp_def)
  have "a / ulp \<le> of_int K" using assms(1) K ulp by (simp add: a_def pos_divide_le_eq)
  then have nK: "n \<le> K" unfolding n_def by (rule roundEven_le)
  have "of_int 0 \<le> a / ulp" using a ulp by simp
  then have n0: "0 \<le> n" unfolding n_def by (rule roundEven_ge)
  define y where "y = of_int n * ulp"
  have y0: "0 \<le> y" using n0 ulp by (simp add: y_def)
  have "of_int n * ulp \<le> of_int K * ulp" using nK ulp by (simp add: mult_right_mono)
  then have yj: "y \<le> 2 powi j" using K by (simp add: y_def)
  have "(2::rat) powi j \<le> 2 powi 1023" using assms(3) by (rule powi_mono)
  moreover have "(2::rat) powi 1023 < 2 powi 1024" by simp
  ultimately have fin: "\<not> 2 powi 1024 \<le> y" using yj by simp
  have "float64_of_rat x = Fin (if 0 < x then y else - y)"
    using False fin
    by (simp add: float64_of_rat_def Let_def a_def [symmetric] e_def [symmetric]
        ulp_def [symmetric] n_def [symmetric] y_def [symmetric])
  then show ?thesis using y0 yj False by auto
qed

lemma float64_of_rat_away:
  assumes "2 powi i \<le> \<bar>x\<bar>" "- 1022 \<le> i" "float64_of_rat x = Fin y"
  shows "2 powi i \<le> \<bar>y\<bar>"
proof -
  define a where "a = \<bar>x\<bar>"
  define e where "e = max (exponent a) (- 1022)"
  define ulp where "ulp = (2::rat) powi (e - 52)"
  define n where "n = roundEven (a / ulp)"
  have "0 < \<bar>x\<bar>" using assms(1) powi_pos [of i] by (rule less_le_trans [rotated])
  then have a: "0 < a" and x: "x \<noteq> 0" by (simp_all add: a_def)
  have ie: "i \<le> exponent a" using exponent_ge [OF a] assms(1) by (simp add: a_def)
  then have e: "e = exponent a" using assms(2) by (simp add: e_def)
  have ulp: "0 < ulp" by (simp add: ulp_def powi_pos)
  have "(2::rat) powi (e - (e - 52)) * 2 powi (e - 52) = 2 powi e" by (rule powi_split)
  moreover have "(2::rat) powi (e - (e - 52)) = of_int (2 ^ 52)" by simp
  ultimately have K: "of_int (2 ^ 52) * ulp = 2 powi e" by (simp add: ulp_def)
  have "2 powi e \<le> a" using exponent_bounds(1) [OF a] e by simp
  then have "of_int (2 ^ 52) \<le> a / ulp" using K ulp by (simp add: pos_le_divide_eq)
  then have n: "2 ^ 52 \<le> n" unfolding n_def by (rule roundEven_ge)
  define z where "z = of_int n * ulp"
  have "of_int (2 ^ 52) * ulp \<le> of_int n * ulp" using n ulp by (simp add: mult_right_mono)
  then have "2 powi e \<le> z" using K by (simp add: z_def)
  moreover have "(2::rat) powi i \<le> 2 powi e" using ie e by (simp add: powi_mono)
  ultimately have z: "2 powi i \<le> z" by simp
  have "float64_of_rat x = (if 2 powi 1024 \<le> z then (if 0 < x then PosInf else NegInf)
     else Fin (if 0 < x then z else - z))"
    using x
    by (simp add: float64_of_rat_def Let_def a_def [symmetric] e_def [symmetric]
        ulp_def [symmetric] n_def [symmetric] z_def [symmetric])
  then have "\<bar>y\<bar> = \<bar>z\<bar>" using assms(3) by (auto split: if_splits)
  then show ?thesis using z powi_pos [of i] by simp
qed


lemma float_div_Fin: "b \<noteq> 0 \<Longrightarrow> float_div (Fin a) (Fin b) = float64_of_rat (a / b)"
  by simp

lemma cpu_chain:
  assumes d: "\<bar>d\<bar> \<le> 2 ^ 63" and s: "s \<noteq> 0" "\<bar>s\<bar> \<le> 2 ^ 63"
  shows "\<exists>yp. float_div (float64_of_int d) (float_div (float64_of_int s) (Fin 1000000)) = Fin yp
           \<and> \<bar>yp\<bar> \<le> 2 powi 83 \<and> (0 \<le> d \<and> 0 < s \<longrightarrow> 0 \<le> yp)"
proof -
  have "\<bar>of_int d :: rat\<bar> \<le> of_int (2 ^ 63)" using d by (simp only: of_int_abs [symmetric] of_int_le_iff)
  then have "\<bar>of_int d :: rat\<bar> \<le> 2 powi 63" by simp
  from float64_of_rat_finite [OF this] obtain ya where ya: "float64_of_int d = Fin ya"
    "\<bar>ya\<bar> \<le> 2 powi 63" "0 \<le> d \<longrightarrow> 0 \<le> ya"
    by (auto simp add: float64_of_int_def)
  have "\<bar>of_int s :: rat\<bar> \<le> of_int (2 ^ 63)" using s(2) by (simp only: of_int_abs [symmetric] of_int_le_iff)
  then have sb: "\<bar>of_int s :: rat\<bar> \<le> 2 powi 63" by simp
  have "1 \<le> \<bar>s\<bar>" using s(1) by simp
  then have "(of_int 1 :: rat) \<le> \<bar>of_int s\<bar>" by (simp only: of_int_abs [symmetric] of_int_le_iff)
  then have s1: "(2::rat) powi 0 \<le> \<bar>of_int s\<bar>" by simp
  from float64_of_rat_finite [OF sb] obtain yb where yb: "float64_of_int s = Fin yb"
    "\<bar>yb\<bar> \<le> 2 powi 63" "0 < s \<longrightarrow> 0 \<le> yb"
    by (auto simp add: float64_of_int_def)
  have yb1: "1 \<le> \<bar>yb\<bar>" using float64_of_rat_away [OF s1 _ yb(1) [unfolded float64_of_int_def]]
    by simp
  have q1: "\<bar>yb / 1000000\<bar> \<le> 2 powi 63" using yb(2) by simp
  have "(2::rat) powi (- 20) = 1 / 1048576" by (simp add: power_int_minus)
  then have q2: "2 powi (- 20) \<le> \<bar>yb / 1000000\<bar>" using yb1 by simp
  from float64_of_rat_finite [OF q1] obtain yd where yd: "float64_of_rat (yb / 1000000) = Fin yd"
    "\<bar>yd\<bar> \<le> 2 powi 63" "0 \<le> yb \<longrightarrow> 0 \<le> yd"
    by auto
  have yd1: "2 powi (- 20) \<le> \<bar>yd\<bar>" using float64_of_rat_away [OF q2 _ yd(1)] by simp
  then have yd0: "yd \<noteq> 0" using powi_pos [of "- 20"] by auto
  have dt: "float_div (float64_of_int s) (Fin 1000000) = Fin yd"
    using yb(1) yd(1) by simp
  have "\<bar>ya\<bar> * 2 powi (- 20) \<le> 2 powi 63 * \<bar>yd\<bar>"
    using ya(2) yd1 powi_pos [of "- 20"] by (intro mult_mono) simp_all
  then have "\<bar>ya\<bar> \<le> 2 powi 63 * \<bar>yd\<bar> * 2 powi 20"
    by (simp add: power_int_minus field_simps)
  then have "\<bar>ya\<bar> / \<bar>yd\<bar> \<le> 2 powi 63 * 2 powi 20"
    using yd0 by (simp add: pos_divide_le_eq mult.assoc mult.left_commute mult.commute)
  moreover have "(2::rat) powi 63 * 2 powi 20 = 2 powi 83" by simp
  ultimately have q3: "\<bar>ya / yd\<bar> \<le> 2 powi 83" by simp
  from float64_of_rat_finite [OF q3] obtain yp where yp: "float64_of_rat (ya / yd) = Fin yp"
    "\<bar>yp\<bar> \<le> 2 powi 83" "0 \<le> ya / yd \<longrightarrow> 0 \<le> yp"
    by auto
  have "float_div (float64_of_int d) (float_div (float64_of_int s) (Fin 1000000)) = Fin yp"
    using ya(1) dt yd0 yp(1) by simp
  moreover have "0 \<le> d \<and> 0 < s \<longrightarrow> 0 \<le> yp"
    using ya(3) yb(3) yd(3) yp(3) by (simp add: zero_le_divide_iff)
  ultimately show ?thesis using yp(2) by blast
qed

lemma Round_bounded:
  assumes "\<bar>v\<bar> \<le> 2 powi 83"
  shows "\<exists>k. Round (Fin v) (1 / 2) 4 = float64_of_rat (of_int k / 10000)
           \<and> \<bar>of_int k :: rat\<bar> \<le> 2 powi 97 \<and> (0 \<le> v \<longrightarrow> 0 \<le> k)"
proof -
  have "\<bar>10000 * v\<bar> \<le> 2 powi 14 * 2 powi 83"
    using assms by (simp only: abs_mult) (intro mult_mono, simp_all)
  moreover have "(2::rat) powi 14 * 2 powi 83 = 2 powi 97" by simp
  ultimately have "\<bar>10000 * v\<bar> \<le> 2 powi 97" by simp
  from float64_of_rat_finite [OF this] obtain g where g: "float64_of_rat (10000 * v) = Fin g"
    "\<bar>g\<bar> \<le> 2 powi 97" "0 \<le> 10000 * v \<longrightarrow> 0 \<le> g"
    by auto
  define K :: int where "K = 2 ^ 97"
  have p: "(2::rat) powi 97 = of_int K" by (simp add: K_def)
  have gl: "of_int (- K) \<le> g" "g \<le> of_int K" using g(2) unfolding p by (simp_all add: abs_le_iff)
  have "\<lfloor>of_int (- K) :: rat\<rfloor> \<le> \<lfloor>g\<rfloor>" using gl(1) by (rule floor_mono)
  moreover have "\<lfloor>g\<rfloor> \<le> \<lfloor>of_int K :: rat\<rfloor>" using gl(2) by (rule floor_mono)
  ultimately have f: "\<bar>\<lfloor>g\<rfloor>\<bar> \<le> K" unfolding floor_of_int by linarith
  have "\<lceil>of_int (- K) :: rat\<rceil> \<le> \<lceil>g\<rceil>" using gl(1) by (rule ceiling_mono)
  moreover have "\<lceil>g\<rceil> \<le> \<lceil>of_int K :: rat\<rceil>" using gl(2) by (rule ceiling_mono)
  ultimately have c: "\<bar>\<lceil>g\<rceil>\<bar> \<le> K" unfolding ceiling_of_int by linarith
  have fr: "\<bar>of_int \<lfloor>g\<rfloor> :: rat\<bar> \<le> 2 powi 97"
    unfolding p using f by (simp only: of_int_abs [symmetric] of_int_le_iff)
  have cr: "\<bar>of_int \<lceil>g\<rceil> :: rat\<bar> \<le> 2 powi 97"
    unfolding p using c by (simp only: of_int_abs [symmetric] of_int_le_iff)
  have s: "0 \<le> v \<longrightarrow> 0 \<le> \<lfloor>g\<rfloor> \<and> 0 \<le> \<lceil>g\<rceil>"
    using g(3) by (auto simp add: le_floor_iff le_ceiling_iff intro: order_trans less_le_trans)
  have "Round (Fin v) (1 / 2) 4 = float64_of_rat (of_int \<lceil>g\<rceil> / 10000)
      \<or> Round (Fin v) (1 / 2) 4 = float64_of_rat (of_int \<lfloor>g\<rfloor> / 10000)"
    using g(1) by (simp add: Let_def)
  then show ?thesis using fr cr s by blast
qed

section \<open>Top-N selection: requesting more than there is\<close>

text \<open>
  C1. The claim is that top-N selection never fails and that \<^verbatim>\<open>byCPU=10\<close> over three
  processes returns exactly three. The code slices \<^verbatim>\<open>processes[:ByCPU]\<close> without comparing
  the count with the length: with three processes in a slice of capacity three, or of
  capacity four (as three appends leave it), the slice expression panics; with room for
  ten in the backing array it returns ten entries, seven of them zero processes. In no
  case does it return the three processes.
\<close>

theorem includeTopProcesses_byCPU_10_of_3:
  "includeTopProcesses insertionSort (topConfig True 10 0)
     \<lparr>elems = [sampleProcess 1 50 5, sampleProcess 2 40 50, sampleProcess 3 30 500],
      spare = []\<rparr> = Inl SliceBoundsOutOfRange
   \<and> includeTopProcesses insertionSort (topConfig True 10 0)
     \<lparr>elems = [sampleProcess 1 50 5, sampleProcess 2 40 50, sampleProcess 3 30 500],
      spare = [zeroProcess]\<rparr> = Inl SliceBoundsOutOfRange
   \<and> includeTopProcesses insertionSort (topConfig True 10 0)
     \<lparr>elems = [sampleProcess 1 50 5, sampleProcess 2 40 50, sampleProcess 3 30 500],
      spare = replicate 7 zeroProcess\<rparr>
     = Inr ([sampleProcess 1 50 5, sampleProcess 2 40 50, sampleProcess 3 30 500]
            @ replicate 7 zeroProcess)"
  by (simp add: includeTopProcesses_def topConfig_def reslice_def cap_def sort_Slice_def
      insertionSort_def sampleProcess_def zeroProcess_def byCPULess_def float_gt_def
      numeral_eq_Suc)

theorem includeTopProcesses_byCPU_10_of_3_witness:
  "Enabled (IncludeTop (topConfig True 10 0))
   \<and> ByCPU (IncludeTop (topConfig True 10 0)) = 10
   \<and> includeTopProcesses insertionSort (topConfig True 10 0)
     \<lparr>elems = [sampleProcess 1 50 5, sampleProcess 2 40 50, sampleProcess 3 30 500],
      spare = []\<rparr>
     \<noteq> Inr [sampleProcess 1 50 5, sampleProcess 2 40 50, sampleProcess 3 30 500]"
  using includeTopProcesses_byCPU_10_of_3 by (simp add: topConfig_def)

section \<open>Top-N selection: the union of the two criteria\<close>

lemma sorted_perm_unique:
  "sorted_wrt lessf xs \<Longrightarrow> mset ys = mset xs
    \<Longrightarrow> sorted_wrt (\<lambda>a b. \<not> lessf b a) ys \<Longrightarrow> ys = xs"
proof (induction xs arbitrary: ys)
  case Nil
  then show ?case by simp
next
  case (Cons x xs)
  from Cons.prems(2) obtain y ys' where ys: "ys = y # ys'"
    by (cases ys) auto
  have "y = x"
  proof (rule ccontr)
    assume ne: "y \<noteq> x"
    have "x \<in># mset ys" using Cons.prems(2) by simp
    then have xin: "x \<in> set ys'" using ne ys by auto
    have "y \<in># mset (x # xs)"
      using Cons.prems(2) ys by (metis list.set_intros(1) set_mset_mset)
    then have "y \<in> set xs" using ne by auto
    then have "lessf x y" using Cons.prems(1) by auto
    moreover have "\<not> lessf x y" using Cons.prems(3) xin ys by auto
    ultimately show False by simp
  qed
  moreover from this have "mset ys' = mset xs" using Cons.prems(2) ys by simp
  moreover have "sorted_wrt lessf xs" using Cons.prems(1) by simp
  moreover have "sorted_wrt (\<lambda>a b. \<not> lessf b a) ys'" using Cons.prems(3) ys by simp
  ultimately show ?case using Cons.IH ys by blast
qed

lemma sorted_head_unique:
  assumes "mset ys = mset xs" and "sorted_wrt (\<lambda>a b. \<not> lessf b a) ys"
    and "m \<in> set xs" and "\<forall>x\<in>set xs. x \<noteq> m \<longrightarrow> lessf m x"
  shows "take (Suc 0) ys = [m]"
proof -
  have min: "m \<in> set ys" using assms(1,3) by (metis set_mset_mset)
  then obtain y ys' where ys: "ys = y # ys'" by (cases ys) auto
  have "y = m"
  proof (rule ccontr)
    assume ne: "y \<noteq> m"
    then have "m \<in> set ys'" using min ys by auto
    then have "\<not> lessf m y" using assms(2) ys by auto
    moreover have "y \<in> set xs"
      using assms(1) ys by (metis list.set_intros(1) set_mset_mset)
    then have "lessf m y" using assms(4) ne by blast
    ultimately show False by simp
  qed
  then show ?thesis using ys by simp
qed

lemma sorts_by_length: "sorts_by srt lessf xs \<Longrightarrow> length (srt lessf xs) = length xs"
  by (metis sorts_by_def size_mset)

lemma isProcessInSlice_iff: "isProcessInSlice ps proc \<longleftrightarrow> Pid proc \<in> Pid ` set ps"
  by (induction ps) auto

lemma fold_appendIfNew:
  "\<exists>extra. fold appendIfNew ms acc = acc @ extra \<and> set extra \<subseteq> set ms
     \<and> (\<forall>p\<in>set extra. Pid p \<notin> Pid ` set acc) \<and> distinct (map Pid extra)"
proof (induction ms arbitrary: acc)
  case Nil
  show ?case by simp
next
  case (Cons m ms)
  show ?case
  proof (cases "isProcessInSlice acc m")
    case True
    then have "fold appendIfNew (m # ms) acc = fold appendIfNew ms acc"
      by (simp add: appendIfNew_def)
    with Cons.IH [of acc] show ?thesis by auto
  next
    case False
    then have step: "fold appendIfNew (m # ms) acc = fold appendIfNew ms (acc @ [m])"
      by (simp add: appendIfNew_def)
    from Cons.IH [of "acc @ [m]"] obtain extra where
      e: "fold appendIfNew ms (acc @ [m]) = (acc @ [m]) @ extra" "set extra \<subseteq> set ms"
         "\<forall>p\<in>set extra. Pid p \<notin> Pid ` set (acc @ [m])" "distinct (map Pid extra)"
      by blast
    have "fold appendIfNew (m # ms) acc = acc @ (m # extra)" using step e(1) by simp
    moreover have "set (m # extra) \<subseteq> set (m # ms)" using e(2) by auto
    moreover have "\<forall>p\<in>set (m # extra). Pid p \<notin> Pid ` set acc"
      using e(3) False by (auto simp: isProcessInSlice_iff)
    moreover have "distinct (map Pid (m # extra))" using e(3,4) by auto
    ultimately show ?thesis by blast
  qed
qed

lemma includeTopProcesses_both:
  assumes "Enabled (IncludeTop st)" "0 < ByCPU (IncludeTop st)" "0 < ByMemory (IncludeTop st)"
  shows "includeTopProcesses srt st ps =
    (case reslice (sort_Slice srt ps byCPULess) (ByCPU (IncludeTop st)) of
       Inl e \<Rightarrow> Inl e
     | Inr topn \<Rightarrow>
        (case reslice (sort_Slice srt (sort_Slice srt ps byCPULess) byMemoryLess)
                (ByMemory (IncludeTop st)) of
           Inl e \<Rightarrow> Inl e
         | Inr mems \<Rightarrow> Inr (fold appendIfNew mems topn)))"
  using assms by (simp add: includeTopProcesses_def Let_def split: sum.splits)

lemma reslice_Inr:
  "reslice s n = Inr xs \<Longrightarrow> xs = take (nat n) (elems s @ spare s)"
  by (auto simp: reslice_def split: if_splits)

lemma top_example:
  assumes cpu: "cpuTotalPct p1 = Fin 50" "cpuTotalPct p2 = Fin 40" "cpuTotalPct p3 = Fin 30"
      "cpuTotalPct p4 = Fin 20" "cpuTotalPct p5 = Fin 10"
    and mem: "Mem_Resident (Mem p1) = 5" "Mem_Resident (Mem p2) = 50"
      "Mem_Resident (Mem p3) = 500" "Mem_Resident (Mem p4) = 1" "Mem_Resident (Mem p5) = 1"
    and pids: "distinct (map Pid [p1, p2, p3, p4, p5])"
    and cfg: "IncludeTop st = \<lparr>Enabled = True, ByCPU = 2, ByMemory = 1\<rparr>"
    and s1: "sorts_by srt byCPULess [p1, p2, p3, p4, p5]"
    and s2: "sorts_by srt byMemoryLess (srt byCPULess [p1, p2, p3, p4, p5])"
  shows "includeTopProcesses srt st \<lparr>elems = [p1, p2, p3, p4, p5], spare = sp\<rparr>
           = Inr [p1, p2, p3]"
proof -
  let ?xs = "[p1, p2, p3, p4, p5]"
  have "sorted_wrt byCPULess ?xs"
    using cpu by (simp add: byCPULess_def float_gt_def)
  then have c: "srt byCPULess ?xs = ?xs"
    using s1 sorted_perm_unique [of byCPULess ?xs "srt byCPULess ?xs"]
    by (simp add: sorts_by_def)
  have s2': "sorts_by srt byMemoryLess ?xs" using s2 c by simp
  have "\<forall>x\<in>set ?xs. x \<noteq> p3 \<longrightarrow> byMemoryLess p3 x"
    using mem by (auto simp: byMemoryLess_def)
  then have hd: "take (Suc 0) (srt byMemoryLess ?xs) = [p3]"
    using s2' sorted_head_unique [of "srt byMemoryLess ?xs" ?xs byMemoryLess p3]
    by (simp add: sorts_by_def)
  have l: "length (srt byMemoryLess ?xs) = 5"
    using sorts_by_length [OF s2'] by simp
  have m: "take (Suc 0) (srt byMemoryLess ?xs @ sp) = [p3]"
    using hd l by simp
  have f: "fold appendIfNew [p3] [p1, p2] = [p1, p2, p3]"
    using pids by (auto simp: appendIfNew_def)
  show ?thesis
    using c l m f cfg
    by (simp add: includeTopProcesses_def Let_def reslice_def cap_def sort_Slice_def)
qed

lemma top_general:
  assumes en: "Enabled (IncludeTop st)" "0 < ByCPU (IncludeTop st)" "0 < ByMemory (IncludeTop st)"
    and res: "includeTopProcesses srt st ps = Inr result"
  shows "let topn = take (nat (ByCPU (IncludeTop st))) (srt byCPULess (elems ps) @ spare ps);
             extra = drop (length topn) result
         in result = topn @ extra
          \<and> list_all (\<lambda>p. Pid p \<notin> Pid ` set topn) extra
          \<and> distinct (map Pid extra)
          \<and> set extra \<subseteq> set (take (nat (ByMemory (IncludeTop st)))
                 (srt byMemoryLess (srt byCPULess (elems ps)) @ spare ps))"
proof -
  let ?s1 = "sort_Slice srt ps byCPULess"
  let ?s2 = "sort_Slice srt ?s1 byMemoryLess"
  from res obtain topn mems where
    t: "reslice ?s1 (ByCPU (IncludeTop st)) = Inr topn" and
    m: "reslice ?s2 (ByMemory (IncludeTop st)) = Inr mems" and
    r: "result = fold appendIfNew mems topn"
    unfolding includeTopProcesses_both [OF en] by (auto split: sum.splits)
  have t': "topn = take (nat (ByCPU (IncludeTop st))) (srt byCPULess (elems ps) @ spare ps)"
    using reslice_Inr [OF t] by (simp add: sort_Slice_def)
  have m': "mems = take (nat (ByMemory (IncludeTop st)))
                 (srt byMemoryLess (srt byCPULess (elems ps)) @ spare ps)"
    using reslice_Inr [OF m] by (simp add: sort_Slice_def)
  from fold_appendIfNew [of mems topn] obtain extra where
    e: "fold appendIfNew mems topn = topn @ extra" "set extra \<subseteq> set mems"
       "\<forall>p\<in>set extra. Pid p \<notin> Pid ` set topn" "distinct (map Pid extra)"
    by blast
  have d: "drop (length topn) result = extra" using r e(1) by simp
  show ?thesis
    unfolding Let_def t' [symmetric] m' [symmetric] d
    using r e by (simp add: list_all_iff)
qed

lemma includeTopProcesses_memory_only:
  assumes "Enabled (IncludeTop st)" "\<not> 0 < ByCPU (IncludeTop st)" "0 < ByMemory (IncludeTop st)"
  shows "includeTopProcesses srt st ps =
    (case reslice (sort_Slice srt ps byMemoryLess) (ByMemory (IncludeTop st)) of
       Inl e \<Rightarrow> Inl e
     | Inr mems \<Rightarrow> Inr (fold appendIfNew mems []))"
  using assms by (simp add: includeTopProcesses_def Let_def split: sum.splits)

lemma top_union:
  assumes en: "Enabled (IncludeTop st)" "0 < ByMemory (IncludeTop st)"
    and res: "includeTopProcesses srt st ps = Inr result"
  shows "let byCPU = (if 0 < ByCPU (IncludeTop st) then srt byCPULess (elems ps) else elems ps);
             topn = (if 0 < ByCPU (IncludeTop st)
                     then take (nat (ByCPU (IncludeTop st))) (byCPU @ spare ps) else []);
             extra = drop (length topn) result
         in result = topn @ extra
          \<and> list_all (\<lambda>p. Pid p \<notin> Pid ` set topn) extra
          \<and> distinct (map Pid extra)
          \<and> set extra \<subseteq> set (take (nat (ByMemory (IncludeTop st)))
                 (srt byMemoryLess byCPU @ spare ps))"
proof (cases "0 < ByCPU (IncludeTop st)")
  case True
  then show ?thesis
    using top_general [OF en(1) True en(2) res] by (simp add: Let_def)
next
  case False
  from res obtain mems where
    m: "reslice (sort_Slice srt ps byMemoryLess) (ByMemory (IncludeTop st)) = Inr mems" and
    r: "result = fold appendIfNew mems []"
    unfolding includeTopProcesses_memory_only [OF en(1) False en(2)]
    by (auto split: sum.splits)
  have m': "mems = take (nat (ByMemory (IncludeTop st)))
                 (srt byMemoryLess (elems ps) @ spare ps)"
    using reslice_Inr [OF m] by (simp add: sort_Slice_def)
  from fold_appendIfNew [of mems "[]"] obtain extra where
    e: "fold appendIfNew mems [] = [] @ extra" "set extra \<subseteq> set mems"
       "distinct (map Pid extra)"
    by blast
  have d: "drop (length ([] :: Process list)) result = extra" using r e(1) by simp
  show ?thesis
    unfolding Let_def if_not_P [OF False] d m' [symmetric]
    using r e by (simp add: list_all_iff)
qed

text \<open>
  C8. With \<^verbatim>\<open>byCPU=2\<close>, \<^verbatim>\<open>byMemory=1\<close> and five processes of distinct PIDs whose CPU
  percentages are 50, 40, 30, 20, 10 and whose resident memory is 5, 50, 500, 1, 1 bytes,
  the selection is the first two processes followed by the third: three entries, each
  PID once. This holds for every sorting routine that sorts the two lists it is given,
  and whatever the spare capacity of the slice. In general, when the memory criterion is
  on, the result is the \<^verbatim>\<open>byCPU\<close> selection (empty when that criterion is off) followed by
  entries of the \<^verbatim>\<open>byMemory\<close> selection whose PIDs are not in the \<^verbatim>\<open>byCPU\<close> selection, no
  PID twice among them.
\<close>

theorem includeTopProcesses_union:
  "(cpuTotalPct p1 = Fin 50 \<and> cpuTotalPct p2 = Fin 40 \<and> cpuTotalPct p3 = Fin 30
      \<and> cpuTotalPct p4 = Fin 20 \<and> cpuTotalPct p5 = Fin 10
      \<and> Mem_Resident (Mem p1) = 5 \<and> Mem_Resident (Mem p2) = 50
      \<and> Mem_Resident (Mem p3) = 500 \<and> Mem_Resident (Mem p4) = 1
      \<and> Mem_Resident (Mem p5) = 1
      \<and> distinct (map Pid [p1, p2, p3, p4, p5])
      \<and> IncludeTop st = \<lparr>Enabled = True, ByCPU = 2, ByMemory = 1\<rparr>
      \<and> sorts_by srt byCPULess [p1, p2, p3, p4, p5]
      \<and> sorts_by srt byMemoryLess (srt byCPULess [p1, p2, p3, p4, p5])
    \<longrightarrow> includeTopProcesses srt st \<lparr>elems = [p1, p2, p3, p4, p5], spare = sp\<rparr>
          = Inr [p1, p2, p3])
   \<and> (Enabled (IncludeTop st') \<and> 0 < ByMemory (IncludeTop st')
      \<and> includeTopProcesses srt' st' ps = Inr result
    \<longrightarrow> (let byCPU = (if 0 < ByCPU (IncludeTop st')
                       then srt' byCPULess (elems ps) else elems ps);
              topn = (if 0 < ByCPU (IncludeTop st')
                      then take (nat (ByCPU (IncludeTop st'))) (byCPU @ spare ps) else []);
              extra = drop (length topn) result
          in result = topn @ extra
           \<and> list_all (\<lambda>p. Pid p \<notin> Pid ` set topn) extra
           \<and> distinct (map Pid extra)
           \<and> set extra \<subseteq> set (take (nat (ByMemory (IncludeTop st')))
                  (srt' byMemoryLess byCPU @ spare ps))))"
  using top_example [of p1 p2 p3 p4 p5 st srt sp] top_union [of st' srt' ps result]
  by blast

lemma insertionSort_simps:
  "insertionSort lessf [] = []"
  "insertionSort lessf (x # xs) = insertBy lessf x (insertionSort lessf xs)"
  by (simp_all add: insertionSort_def)

theorem includeTopProcesses_union_witness:
  "sorts_by insertionSort byCPULess
     [sampleProcess 1 50 5, sampleProcess 2 40 50, sampleProcess 3 30 500,
      sampleProcess 4 20 1, sampleProcess 5 10 1]
   \<and> sorts_by insertionSort byMemoryLess (insertionSort byCPULess
     [sampleProcess 1 50 5, sampleProcess 2 40 50, sampleProcess 3 30 500,
      sampleProcess 4 20 1, sampleProcess 5 10 1])
   \<and> includeTopProcesses insertionSort (topConfig True 2 1)
       \<lparr>elems = [sampleProcess 1 50 5, sampleProcess 2 40 50, sampleProcess 3 30 500,
                 sampleProcess 4 20 1, sampleProcess 5 10 1], spare = []\<rparr>
      = Inr [sampleProcess 1 50 5, sampleProcess 2 40 50, sampleProcess 3 30 500]
   \<and> list_all (\<lambda>p. Pid p \<notin> Pid ` set [sampleProcess 1 50 5, sampleProcess 2 40 50])
        [sampleProcess 3 30 500]"
proof -
  let ?xs = "[sampleProcess 1 50 5, sampleProcess 2 40 50, sampleProcess 3 30 500,
      sampleProcess 4 20 1, sampleProcess 5 10 1]"
  have c: "insertionSort byCPULess ?xs = ?xs"
    by (simp add: insertionSort_simps byCPULess_def float_gt_def sampleProcess_def)
  have m: "insertionSort byMemoryLess ?xs =
      [sampleProcess 3 30 500, sampleProcess 2 40 50, sampleProcess 1 50 5,
       sampleProcess 4 20 1, sampleProcess 5 10 1]"
    by (simp add: insertionSort_simps byMemoryLess_def sampleProcess_def zeroProcMem_def)
  have h1: "sorts_by insertionSort byCPULess ?xs"
    unfolding sorts_by_def c
    by (simp add: byCPULess_def float_gt_def sampleProcess_def)
  have h2: "sorts_by insertionSort byMemoryLess (insertionSort byCPULess ?xs)"
    unfolding sorts_by_def c m
    by (simp add: byMemoryLess_def sampleProcess_def zeroProcMem_def)
  have ids: "distinct (map Pid ?xs)"
    by (simp add: sampleProcess_def)
  note t = includeTopProcesses_union [of "sampleProcess 1 50 5" "sampleProcess 2 40 50"
      "sampleProcess 3 30 500" "sampleProcess 4 20 1" "sampleProcess 5 10 1"
      "topConfig True 2 1" insertionSort "[]" "topConfig True 2 1" insertionSort
      "\<lparr>elems = ?xs, spare = []\<rparr>"
      "[sampleProcess 1 50 5, sampleProcess 2 40 50, sampleProcess 3 30 500]"]
  have a: "includeTopProcesses insertionSort (topConfig True 2 1) \<lparr>elems = ?xs, spare = []\<rparr>
      = Inr [sampleProcess 1 50 5, sampleProcess 2 40 50, sampleProcess 3 30 500]"
    using t h1 h2 ids by (simp add: sampleProcess_def zeroProcMem_def topConfig_def)
  have b: "list_all (\<lambda>p. Pid p \<notin> Pid ` set [sampleProcess 1 50 5, sampleProcess 2 40 50])
        [sampleProcess 3 30 500]"
    using t a c by (simp add: topConfig_def Let_def)
  show ?thesis using h1 h2 a b by simp
qed

section \<open>The environment allow-list\<close>

lemma getProcEnv_range_map_of:
  "map_of (getProcEnv_range (Some f) vars out) =
     map_of out ++ (map_of (rev vars) |` {k. f k})"
proof (induction vars arbitrary: out)
  case Nil
  show ?case by simp
next
  case (Cons kv vars)
  obtain k v where kv: "kv = (k, v)" by (cases kv)
  show ?case
  proof (cases "f k")
    case True
    then show ?thesis
      unfolding kv
      by (auto simp: Cons.IH update_conv' fun_eq_iff map_add_def restrict_map_def
          split: option.splits)
  next
    case False
    then show ?thesis
      unfolding kv
      by (auto simp: Cons.IH fun_eq_iff map_add_def restrict_map_def split: option.splits)
  qed
qed

lemma getProcEnv_range_distinct:
  "distinct (map fst out) \<Longrightarrow> distinct (map fst (getProcEnv_range flt vars out))"
  by (induction vars arbitrary: out) (auto simp: distinct_update)

lemma getProcEnv_range_keeps:
  "distinct (map fst vars) \<Longrightarrow> \<forall>k\<in>fst ` set vars. f k \<and> k \<notin> fst ` set out
    \<Longrightarrow> getProcEnv_range (Some f) vars out = out @ vars"
proof (induction vars arbitrary: out)
  case Nil
  show ?case by simp
next
  case (Cons kv vars)
  obtain k v where kv: "kv = (k, v)" by (cases kv)
  have fk: "f k" and fresh: "k \<notin> fst ` set out" using Cons.prems(2) kv by auto
  have u: "AList.update k v out = out @ [(k, v)]"
    using fresh by (induction out) auto
  have "getProcEnv_range (Some f) vars (out @ [(k, v)]) = (out @ [(k, v)]) @ vars"
    using Cons.prems kv by (intro Cons.IH) auto
  then show ?case using fk u kv by simp
qed

lemma getProcEnv_range_keys:
  "fst ` set (getProcEnv_range (Some f) vars out) \<subseteq> fst ` set out \<union> {k. f k}"
proof -
  have "dom (map_of (getProcEnv_range (Some f) vars out)) \<subseteq> dom (map_of out) \<union> {k. f k}"
    unfolding getProcEnv_range_map_of by (auto simp: restrict_map_def split: if_splits)
  then show ?thesis by (simp add: dom_map_of_conv_image_fst)
qed

lemma retain_twice:
  "getProcEnv_range (Some f) (getProcEnv_range (Some f) vars []) []
     = getProcEnv_range (Some f) vars []"
proof -
  let ?r = "getProcEnv_range (Some f) vars []"
  have "distinct (map fst ?r)" by (rule getProcEnv_range_distinct) simp
  moreover have "\<forall>k\<in>fst ` set ?r. f k \<and> k \<notin> fst ` set []"
    using getProcEnv_range_keys [of f vars "[]"] by auto
  ultimately show ?thesis using getProcEnv_range_keeps [of ?r f "[]"] by simp
qed

lemma map_of_rev_distinct: "distinct (map fst xs) \<Longrightarrow> map_of (rev xs) = map_of xs"
proof (induction xs)
  case Nil
  show ?case by simp
next
  case (Cons kv xs)
  obtain k v where kv: "kv = (k, v)" by (cases kv)
  have "k \<notin> dom (map_of xs)"
    using Cons.prems kv by (simp add: dom_map_of_conv_image_fst)
  then have "map_of xs k = None" by auto
  then show ?case
    using Cons kv by (auto simp: fun_eq_iff map_add_def split: option.splits)
qed

lemma retain_exactly:
  assumes "distinct (map fst vars)"
  shows "map_of (getProcEnv_range (Some f) vars []) k = (if f k then map_of vars k else None)"
  unfolding getProcEnv_range_map_of map_of_rev_distinct [OF assms]
  by (simp add: restrict_map_def)

lemma retain_again:
  assumes "distinct (map fst vars')"
    and "map_of vars' = map_of (getProcEnv_range (Some f) vars [])"
  shows "map_of (getProcEnv_range (Some f) vars' []) = map_of vars'"
proof
  fix k
  have "map_of (getProcEnv_range (Some f) vars' []) k = (if f k then map_of vars' k else None)"
    by (rule retain_exactly [OF assms(1)])
  moreover have "\<not> f k \<Longrightarrow> map_of vars' k = None"
    unfolding assms(2) getProcEnv_range_map_of by (simp add: restrict_map_def)
  ultimately show "map_of (getProcEnv_range (Some f) vars' []) k = map_of vars' k"
    by simp
qed

text \<open>
  C10. Retaining the allowed variables is idempotent. Running the loop of \<^verbatim>\<open>getProcEnv\<close>
  with the predicate \<^verbatim>\<open>isWhitelistedEnvVar\<close> over its own result gives that result again;
  over entries with distinct names it keeps exactly the names the predicate accepts,
  with their values; and over any other listing of an already filtered mapping (Go
  fixes no order of a map's entries) it gives the same mapping.
\<close>

theorem envFilter_idempotent:
  "getProcEnv_range (Some (isWhitelistedEnvVar p))
       (getProcEnv_range (Some (isWhitelistedEnvVar p)) vars []) []
     = getProcEnv_range (Some (isWhitelistedEnvVar p)) vars []
   \<and> (distinct (map fst vars) \<longrightarrow>
        (\<forall>k. map_of (getProcEnv_range (Some (isWhitelistedEnvVar p)) vars []) k
               = (if isWhitelistedEnvVar p k then map_of vars k else None)))
   \<and> (distinct (map fst vars')
        \<and> map_of vars' = map_of (getProcEnv_range (Some (isWhitelistedEnvVar p)) vars [])
      \<longrightarrow> map_of (getProcEnv_range (Some (isWhitelistedEnvVar p)) vars' []) = map_of vars')"
  using retain_twice [of "isWhitelistedEnvVar p" vars]
    retain_exactly [of vars "isWhitelistedEnvVar p"]
    retain_again [of vars' "isWhitelistedEnvVar p" vars]
  by blast

theorem envFilter_idempotent_witness:
  "distinct (map fst [(''LC_ALL'', ''C''), (''HOME'', ''/root''), (''LC_TIME'', ''POSIX'')])
   \<and> getProcEnv_range (Some (isWhitelistedEnvVar (samplerConfig False [hasPrefix ''LC_''] Map.empty)))
        [(''LC_ALL'', ''C''), (''HOME'', ''/root''), (''LC_TIME'', ''POSIX'')] []
      = [(''LC_ALL'', ''C''), (''LC_TIME'', ''POSIX'')]
   \<and> distinct (map fst [(''LC_TIME'', ''POSIX''), (''LC_ALL'', ''C'')])
   \<and> map_of [(''LC_TIME'', ''POSIX''), (''LC_ALL'', ''C'')]
      = map_of [(''LC_ALL'', ''C''), (''LC_TIME'', ''POSIX'')]
   \<and> map_of (getProcEnv_range (Some (isWhitelistedEnvVar (samplerConfig False [hasPrefix ''LC_''] Map.empty)))
        [(''LC_TIME'', ''POSIX''), (''LC_ALL'', ''C'')] [])
      = map_of [(''LC_TIME'', ''POSIX''), (''LC_ALL'', ''C'')]
   \<and> getProcEnv_range (Some (isWhitelistedEnvVar (samplerConfig False [hasPrefix ''LC_''] Map.empty)))
        [(''LC_ALL'', ''C''), (''LC_TIME'', ''POSIX'')] []
      = [(''LC_ALL'', ''C''), (''LC_TIME'', ''POSIX'')]"
proof -
  let ?p = "samplerConfig False [hasPrefix ''LC_''] Map.empty"
  let ?vars = "[(''LC_ALL'', ''C''), (''HOME'', ''/root''), (''LC_TIME'', ''POSIX'')]"
  let ?vars' = "[(''LC_TIME'', ''POSIX''), (''LC_ALL'', ''C'')]"
  have r: "getProcEnv_range (Some (isWhitelistedEnvVar ?p)) ?vars []
      = [(''LC_ALL'', ''C''), (''LC_TIME'', ''POSIX'')]"
    by (simp add: isWhitelistedEnvVar_def samplerConfig_def hasPrefix_def)
  have m: "map_of ?vars' = map_of [(''LC_ALL'', ''C''), (''LC_TIME'', ''POSIX'')]"
    by (auto simp: fun_eq_iff)
  have d: "distinct (map fst ?vars)" "distinct (map fst ?vars')" by simp_all
  note t = envFilter_idempotent [of ?p ?vars ?vars']
  have a: "map_of (getProcEnv_range (Some (isWhitelistedEnvVar ?p)) ?vars' []) = map_of ?vars'"
    using t d(2) m unfolding r by blast
  have b: "getProcEnv_range (Some (isWhitelistedEnvVar ?p))
        [(''LC_ALL'', ''C''), (''LC_TIME'', ''POSIX'')] []
      = [(''LC_ALL'', ''C''), (''LC_TIME'', ''POSIX'')]"
    using t unfolding r by blast
  show ?thesis using r m d a b by blast
qed

section \<open>Enumeration failure\<close>

text \<open>
  C6. When the sampler is configured with process patterns and listing the PIDs fails,
  \<^verbatim>\<open>GetProcStats\<close> makes that one query, returns no events and the error of the listing,
  and leaves its state, the retained snapshot included, as it was.
\<close>

theorem GetProcStats_enumeration_failure:
  "Procs procStats \<noteq> [] \<and> ds_Pids ds = Inl err
   \<longrightarrow> GetProcStats rt ds procStats = (procStats, [QPids], Inr (None, Some err))"
  by (simp add: GetProcStats_def Pids_def)

theorem GetProcStats_enumeration_failure_witness:
  "Procs (samplerConfig True [] [1 \<mapsto> sampleProcess 1 0 0]) \<noteq> []
   \<and> ds_Pids ((singleSource 1 ''init'' [] (Inl ErrPermission) [] 0)
        \<lparr>ds_Pids := Inl (ErrOther ''open /proc: too many open files'')\<rparr>)
      = Inl (ErrOther ''open /proc: too many open files'')
   \<and> ProcsMap (fst (GetProcStats plainRuntime
         ((singleSource 1 ''init'' [] (Inl ErrPermission) [] 0)
            \<lparr>ds_Pids := Inl (ErrOther ''open /proc: too many open files'')\<rparr>)
         (samplerConfig True [] [1 \<mapsto> sampleProcess 1 0 0]))) 1
      = Some (sampleProcess 1 0 0)
   \<and> snd (snd (GetProcStats plainRuntime
         ((singleSource 1 ''init'' [] (Inl ErrPermission) [] 0)
            \<lparr>ds_Pids := Inl (ErrOther ''open /proc: too many open files'')\<rparr>)
         (samplerConfig True [] [1 \<mapsto> sampleProcess 1 0 0])))
      = Inr (None, Some (ErrOther ''open /proc: too many open files''))"
  using GetProcStats_enumeration_failure [of "samplerConfig True [] [1 \<mapsto> sampleProcess 1 0 0]"
      "(singleSource 1 ''init'' [] (Inl ErrPermission) [] 0)
         \<lparr>ds_Pids := Inl (ErrOther ''open /proc: too many open files'')\<rparr>"
      "ErrOther ''open /proc: too many open files''" plainRuntime]
  by (simp add: samplerConfig_def singleSource_def)


section \<open>File-descriptor usage that is not available\<close>

lemma andThen_Inr:
  "fst (andThen m f) = Inr b \<Longrightarrow> \<exists>a. fst m = Inr a \<and> fst (f a) = Inr b"
  by (cases m) (auto simp: andThen_def split: sum.splits prod.splits)

lemma newProcess_Inr:
  "fst (newProcess ds pid cmdline env) = Inr proc \<Longrightarrow>
     Pid proc = pid \<and> FD proc = zeroProcFDUsage \<and> CmdLine proc = cmdline \<and> Env proc = env"
  by (auto simp: newProcess_def zeroProcess_def Let_def
      split: sum.splits prod.splits option.splits if_splits)

lemma getDetails_mem_Inr:
  "fst (getDetails_mem ds proc) = Inr proc' \<Longrightarrow>
     Pid proc' = Pid proc \<and> FD proc' = FD proc \<and> CmdLine proc' = CmdLine proc
     \<and> Env proc' = Env proc"
  by (auto simp: getDetails_mem_def split: sum.splits)

lemma getDetails_cpu_Inr:
  "fst (getDetails_cpu ds proc) = Inr proc' \<Longrightarrow>
     Pid proc' = Pid proc \<and> FD proc' = FD proc \<and> CmdLine proc' = CmdLine proc
     \<and> Env proc' = Env proc"
  by (auto simp: getDetails_cpu_def split: sum.splits)

lemma getDetails_io_Inr:
  "fst (getDetails_io ds proc) = Inr proc' \<Longrightarrow>
     Pid proc' = Pid proc \<and> FD proc' = FD proc \<and> CmdLine proc' = CmdLine proc
     \<and> Env proc' = Env proc"
  by (auto simp: getDetails_io_def split: sum.splits)

lemma getDetails_cmdline_Inr:
  "fst (getDetails_cmdline ds proc) = Inr proc' \<Longrightarrow>
     Pid proc' = Pid proc \<and> FD proc' = FD proc \<and> Env proc' = Env proc
     \<and> (CmdLine proc \<noteq> [] \<longrightarrow> CmdLine proc' = CmdLine proc)"
  by (auto simp: getDetails_cmdline_def Let_def
      split: sum.splits prod.splits option.splits if_splits)

lemma getDetails_fd_Inr:
  "fst (getDetails_fd ds proc) = Inr proc' \<Longrightarrow>
     Pid proc' = Pid proc \<and> CmdLine proc' = CmdLine proc \<and> Env proc' = Env proc"
  by (auto simp: getDetails_fd_def split: sum.splits prod.splits option.splits)

lemma getDetails_env_Inr:
  "fst (getDetails_env ds flt proc) = Inr proc' \<Longrightarrow>
     Pid proc' = Pid proc \<and> FD proc' = FD proc \<and> CmdLine proc' = CmdLine proc
     \<and> (Env proc \<noteq> None \<longrightarrow> Env proc' = Env proc)"
  by (auto simp: getDetails_env_def split: sum.splits prod.splits if_splits)

lemma getProcFDUsage_unavailable:
  "IsNotImplemented err \<or> IsPermission err \<Longrightarrow> ds_ProcFDUsage ds pid = Inl err
    \<Longrightarrow> fst (getProcFDUsage ds pid) = Inr None"
  by (auto simp: getProcFDUsage_def)

lemma getDetails_fd_unavailable:
  "fst (getProcFDUsage ds (Pid proc)) = Inr None \<Longrightarrow> fst (getDetails_fd ds proc) = Inr proc'
    \<Longrightarrow> proc' = proc"
  by (auto simp: getDetails_fd_def split: sum.splits prod.splits option.splits)

lemma getDetails_FD_unavailable:
  assumes fd: "fst (getProcFDUsage ds (Pid proc)) = Inr None"
    and d: "fst (getDetails ds flt proc) = Inr detailed"
  shows "FD detailed = FD proc \<and> Pid detailed = Pid proc"
proof -
  from d obtain p1 where 1: "fst (getDetails_mem ds proc) = Inr p1"
    and r1: "fst (andThen (getDetails_cpu ds p1) (\<lambda>proc.
       andThen (getDetails_io ds proc) (\<lambda>proc.
       andThen (getDetails_cmdline ds proc) (\<lambda>proc.
       andThen (getDetails_fd ds proc) (\<lambda>proc.
       getDetails_env ds flt proc))))) = Inr detailed"
    unfolding getDetails_def by (blast dest: andThen_Inr)
  from r1 obtain p2 where 2: "fst (getDetails_cpu ds p1) = Inr p2"
    and r2: "fst (andThen (getDetails_io ds p2) (\<lambda>proc.
       andThen (getDetails_cmdline ds proc) (\<lambda>proc.
       andThen (getDetails_fd ds proc) (\<lambda>proc.
       getDetails_env ds flt proc)))) = Inr detailed"
    by (blast dest: andThen_Inr)
  from r2 obtain p3 where 3: "fst (getDetails_io ds p2) = Inr p3"
    and r3: "fst (andThen (getDetails_cmdline ds p3) (\<lambda>proc.
       andThen (getDetails_fd ds proc) (\<lambda>proc.
       getDetails_env ds flt proc))) = Inr detailed"
    by (blast dest: andThen_Inr)
  from r3 obtain p4 where 4: "fst (getDetails_cmdline ds p3) = Inr p4"
    and r4: "fst (andThen (getDetails_fd ds p4) (\<lambda>proc.
       getDetails_env ds flt proc)) = Inr detailed"
    by (blast dest: andThen_Inr)
  from r4 obtain p5 where 5: "fst (getDetails_fd ds p4) = Inr p5"
    and 6: "fst (getDetails_env ds flt p5) = Inr detailed"
    by (blast dest: andThen_Inr)
  have k4: "Pid p4 = Pid proc \<and> FD p4 = FD proc"
    using getDetails_mem_Inr [OF 1] getDetails_cpu_Inr [OF 2] getDetails_io_Inr [OF 3]
      getDetails_cmdline_Inr [OF 4] by auto
  then have "p5 = p4" using getDetails_fd_unavailable [of ds p4 p5] fd 5 by simp
  then show ?thesis using k4 getDetails_env_Inr [OF 6] by auto
qed

lemma Put_other:
  "path \<noteq> [] \<Longrightarrow> k' \<noteq> hd path \<Longrightarrow> map_of (Put path v m) k' = map_of m k'"
proof (cases path)
  case Nil
  assume "path \<noteq> []"
  with Nil show ?thesis by simp
next
  case (Cons k ks)
  assume ne: "k' \<noteq> hd path"
  show ?thesis
  proof (cases ks)
    case Nil
    with Cons ne show ?thesis by (simp add: update_conv')
  next
    case (Cons k2 ks2)
    with \<open>path = k # ks\<close> ne show ?thesis
      by (auto simp: update_conv' split: option.splits val.splits)
  qed
qed

lemma event_literal_fd: "map_of (event_literal ds process) ''fd'' = None"
  by (simp add: event_literal_def)

lemma event_cmdline_fd: "map_of (event_cmdline process proc) ''fd'' = map_of proc ''fd''"
  by (simp add: event_cmdline_def update_conv')

lemma event_cwd_fd: "map_of (event_cwd process proc) ''fd'' = map_of proc ''fd''"
  by (simp add: event_cwd_def update_conv')

lemma event_env_fd: "map_of (event_env process proc) ''fd'' = map_of proc ''fd''"
  by (simp add: event_env_def update_conv' split: option.splits)

lemma event_cpu_fd: "map_of (event_cpu process proc) ''fd'' = map_of proc ''fd''"
  by (simp add: event_cpu_def update_conv')

lemma event_ticks_fd: "map_of (event_ticks procStats process proc) ''fd'' = map_of proc ''fd''"
  by (simp add: event_ticks_def Put_other del: Put.simps)

lemma getProcessEvent_no_fd:
  assumes "FD process = zeroProcFDUsage"
  shows "map_of (getProcessEvent ds procStats process) ''fd'' = None"
  using assms
  by (simp add: getProcessEvent_def event_fd_def event_ticks_fd event_cpu_fd event_env_fd
      event_cwd_fd event_cmdline_fd event_literal_fd)

text \<open>
  C7. When the file-descriptor query of a process reports "not implemented" or
  "permission denied", \<^verbatim>\<open>getProcFDUsage\<close> returns no usage and no error; and the event of
  a process that \<^verbatim>\<open>newProcess\<close> created and \<^verbatim>\<open>getDetails\<close> filled from that data source
  has no \<^verbatim>\<open>fd\<close> key, whatever CPU percentage is stored in it afterwards.
\<close>

theorem fd_unavailable_absent:
  "(IsNotImplemented err \<or> IsPermission err) \<and> ds_ProcFDUsage ds pid = Inl err
   \<longrightarrow> fst (getProcFDUsage ds pid) = Inr None
     \<and> (fst (newProcess ds pid cmdline env) = Inr proc
          \<and> fst (getDetails ds flt proc) = Inr detailed
        \<longrightarrow> map_of (getProcessEvent ds' procStats (detailed\<lparr>cpuTotalPct := pct\<rparr>)) ''fd''
            = None)"
proof (intro impI conjI)
  assume a: "(IsNotImplemented err \<or> IsPermission err) \<and> ds_ProcFDUsage ds pid = Inl err"
  then show none: "fst (getProcFDUsage ds pid) = Inr None"
    using getProcFDUsage_unavailable [of err ds pid] by blast
  assume b: "fst (newProcess ds pid cmdline env) = Inr proc
     \<and> fst (getDetails ds flt proc) = Inr detailed"
  then have p: "Pid proc = pid" "FD proc = zeroProcFDUsage"
    using newProcess_Inr [of ds pid cmdline env proc] by simp_all
  have "FD detailed = FD proc"
    using getDetails_FD_unavailable [of ds proc flt detailed] none p(1) b by simp
  then have "FD (detailed\<lparr>cpuTotalPct := pct\<rparr>) = zeroProcFDUsage"
    using p(2) by simp
  then show "map_of (getProcessEvent ds' procStats (detailed\<lparr>cpuTotalPct := pct\<rparr>)) ''fd''
      = None"
    by (rule getProcessEvent_no_fd)
qed

theorem fd_unavailable_absent_witness:
  "IsPermission ErrPermission
   \<and> ds_ProcFDUsage (singleSource 7 ''sshd'' [''/usr/sbin/sshd'', ''-D''] (Inl ErrPermission) [] 0) 7
      = Inl ErrPermission
   \<and> fst (getProcFDUsage
        (singleSource 7 ''sshd'' [''/usr/sbin/sshd'', ''-D''] (Inl ErrPermission) [] 0) 7)
      = Inr None
   \<and> (\<exists>proc detailed.
        fst (newProcess
          (singleSource 7 ''sshd'' [''/usr/sbin/sshd'', ''-D''] (Inl ErrPermission) [] 0)
          7 [] None) = Inr proc
        \<and> fst (getDetails
          (singleSource 7 ''sshd'' [''/usr/sbin/sshd'', ''-D''] (Inl ErrPermission) [] 0)
          (Some (isWhitelistedEnvVar (samplerConfig False [] Map.empty))) proc) = Inr detailed
        \<and> CmdLine detailed = ''/usr/sbin/sshd -D''
        \<and> map_of (getProcessEvent
             (singleSource 7 ''sshd'' [''/usr/sbin/sshd'', ''-D''] (Inl ErrPermission) [] 0)
             (samplerConfig False [] Map.empty) (detailed\<lparr>cpuTotalPct := Fin 0\<rparr>)) ''fd''
           = None)"
proof -
  let ?ds = "singleSource 7 ''sshd'' [''/usr/sbin/sshd'', ''-D''] (Inl ErrPermission) [] 0"
  let ?st = "samplerConfig False [] Map.empty"
  obtain proc where n: "fst (newProcess ?ds 7 [] None) = Inr proc"
    by (simp add: newProcess_def singleSource_def)
  have pc: "CmdLine proc = []" "Env proc = None" "Pid proc = 7"
    using newProcess_Inr [OF n] by simp_all
  obtain detailed where
    d: "fst (getDetails ?ds (Some (isWhitelistedEnvVar ?st)) proc) = Inr detailed"
    and c: "CmdLine detailed = ''/usr/sbin/sshd -D''"
    using pc
    by (simp add: getDetails_def andThen_def getDetails_mem_def getDetails_cpu_def
        getDetails_io_def getDetails_cmdline_def getDetails_fd_def getDetails_env_def
        getProcFDUsage_def getProcEnv_def singleSource_def IsNotImplemented_def
        IsPermission_def)
  have f: "ds_ProcFDUsage ?ds 7 = Inl ErrPermission" by (simp add: singleSource_def)
  have i: "IsPermission ErrPermission" by (simp add: IsPermission_def)
  note t = fd_unavailable_absent [of ErrPermission ?ds 7 "[]" None proc
      "Some (isWhitelistedEnvVar ?st)" detailed ?ds ?st "Fin 0"]
  have g: "fst (getProcFDUsage ?ds 7) = Inr None" using t f i by blast
  have e: "map_of (getProcessEvent ?ds ?st (detailed\<lparr>cpuTotalPct := Fin 0\<rparr>)) ''fd'' = None"
    using t f i n d by blast
  show ?thesis using i f g n d c e by blast
qed

section \<open>The CPU percentage\<close>

lemma sint_word_of_int_64:
  "- (2 ^ 63) \<le> k \<Longrightarrow> k < 2 ^ 63 \<Longrightarrow> sint (word_of_int k :: 64 word) = k"
  by (simp add: sint_sbintrunc' signed_take_bit_int_eq_self)

lemma sint_diff_64:
  fixes a b :: "64 word"
  assumes "- (2 ^ 63) \<le> uint a - uint b" "uint a - uint b < 2 ^ 63"
  shows "sint (a - b) = uint a - uint b"
proof -
  have "a - b = word_of_int (uint a - uint b)" by (rule word_sub_wi)
  then show ?thesis using sint_word_of_int_64 [OF assms] by simp
qed

lemma sint_Time_Sub:
  assumes "- (2 ^ 63) \<le> t - u" "t - u < 2 ^ 63"
  shows "sint (Time_Sub t u) = t - u"
proof -
  have "Time_Sub t u = word_of_int (t - u)"
    unfolding Time_Sub_def Let_def using assms by (simp del: of_int_diff)
  then show ?thesis using sint_word_of_int_64 [OF assms] by simp
qed

lemma Time_Sub_nonzero: "t \<noteq> u \<Longrightarrow> sint (Time_Sub t u) \<noteq> 0"
proof -
  assume ne: "t \<noteq> u"
  consider "t - u < - (2 ^ 63)" | "2 ^ 63 - 1 < t - u"
    | "- (2 ^ 63) \<le> t - u" "t - u < 2 ^ 63"
    by linarith
  then show ?thesis
  proof cases
    case 1
    then have "Time_Sub t u = word_of_int (- (2 ^ 63))"
      by (simp add: Time_Sub_def Let_def)
    then show ?thesis using sint_word_of_int_64 [of "- (2 ^ 63)"] by simp
  next
    case 2
    then have "Time_Sub t u = word_of_int (2 ^ 63 - 1)"
      by (simp add: Time_Sub_def Let_def)
    then show ?thesis using sint_word_of_int_64 [of "2 ^ 63 - 1"] by simp
  next
    case 3
    then show ?thesis using sint_Time_Sub [of t u] ne by simp
  qed
qed

lemma sint_64_range: "\<bar>sint (w :: 64 word)\<bar> \<le> 2 ^ 63"
  using sint_ge [of w] sint_lt [of w] by simp

lemma GetProcCpuPercentage_first: "GetProcCpuPercentage None current = Fin 0"
  by (simp add: GetProcCpuPercentage_def)

lemma GetProcCpuPercentage_in_range:
  assumes "- (2 ^ 63) \<le> uint (Cpu_Total (Cpu c)) - uint (Cpu_Total (Cpu p))"
    "uint (Cpu_Total (Cpu c)) - uint (Cpu_Total (Cpu p)) < 2 ^ 63"
    "- (2 ^ 63) \<le> Ctime c - Ctime p" "Ctime c - Ctime p < 2 ^ 63"
  shows "GetProcCpuPercentage (Some p) (Some c) =
     Round (float_div
              (float64_of_int (uint (Cpu_Total (Cpu c)) - uint (Cpu_Total (Cpu p))))
              (float_div (float64_of_int (Ctime c - Ctime p)) (Fin 1000000))) (1 / 2) 4"
proof -
  have d: "float64_of_int64 (Cpu_Total (Cpu c) - Cpu_Total (Cpu p))
      = float64_of_int (uint (Cpu_Total (Cpu c)) - uint (Cpu_Total (Cpu p)))"
    unfolding float64_of_int64_def sint_diff_64 [OF assms(1,2)] ..
  have t: "float64_of_int64 (Time_Sub (Ctime c) (Ctime p)) = float64_of_int (Ctime c - Ctime p)"
    unfolding float64_of_int64_def sint_Time_Sub [OF assms(3,4)] ..
  show ?thesis
    by (simp add: GetProcCpuPercentage_def Let_def d t del: Round.simps float_div.simps)
qed

lemma GetProcCpuPercentage_chain:
  assumes "Ctime c \<noteq> Ctime p"
  shows "\<exists>k. GetProcCpuPercentage (Some p) (Some c) = float64_of_rat (of_int k / 10000)
     \<and> \<bar>of_int k :: rat\<bar> \<le> 2 powi 97
     \<and> (0 \<le> sint (Cpu_Total (Cpu c) - Cpu_Total (Cpu p)) \<and> 0 < sint (Time_Sub (Ctime c) (Ctime p))
         \<longrightarrow> 0 \<le> k)"
proof -
  let ?d = "sint (Cpu_Total (Cpu c) - Cpu_Total (Cpu p))"
  let ?s = "sint (Time_Sub (Ctime c) (Ctime p))"
  have "?s \<noteq> 0" using assms by (rule Time_Sub_nonzero)
  from cpu_chain [OF sint_64_range this sint_64_range]
  obtain yp where yp: "float_div (float64_of_int ?d) (float_div (float64_of_int ?s) (Fin 1000000)) = Fin yp"
    "\<bar>yp\<bar> \<le> 2 powi 83" "0 \<le> ?d \<and> 0 < ?s \<longrightarrow> 0 \<le> yp"
    by blast
  have "GetProcCpuPercentage (Some p) (Some c) = Round (Fin yp) (1 / 2) 4"
    by (simp add: GetProcCpuPercentage_def Let_def float64_of_int64_def yp(1)
        del: Round.simps float_div.simps)
  then show ?thesis using Round_bounded [OF yp(2)] yp(3) by auto
qed

lemma GetProcCpuPercentage_rounded:
  assumes "Ctime c \<noteq> Ctime p"
  shows "\<exists>k. GetProcCpuPercentage (Some p) (Some c) = float64_of_rat (of_int k / 10000)"
  using GetProcCpuPercentage_chain [OF assms] by blast

lemma GetProcCpuPercentage_nonneg:
  assumes "uint (Cpu_Total (Cpu p)) \<le> uint (Cpu_Total (Cpu c))"
    "uint (Cpu_Total (Cpu c)) - uint (Cpu_Total (Cpu p)) < 2 ^ 63"
    "0 < Ctime c - Ctime p" "Ctime c - Ctime p < 2 ^ 63"
  shows "\<exists>k y. 0 \<le> k \<and> 0 \<le> y
     \<and> GetProcCpuPercentage (Some p) (Some c) = float64_of_rat (of_int k / 10000)
     \<and> GetProcCpuPercentage (Some p) (Some c) = Fin y"
proof -
  have d: "sint (Cpu_Total (Cpu c) - Cpu_Total (Cpu p))
      = uint (Cpu_Total (Cpu c)) - uint (Cpu_Total (Cpu p))"
    using assms(1,2) by (intro sint_diff_64) simp_all
  have s: "sint (Time_Sub (Ctime c) (Ctime p)) = Ctime c - Ctime p"
    using assms(3,4) by (intro sint_Time_Sub) simp_all
  have "Ctime c \<noteq> Ctime p" using assms(3) by simp
  from GetProcCpuPercentage_chain [OF this] d s assms(1,3)
  obtain k where k: "GetProcCpuPercentage (Some p) (Some c) = float64_of_rat (of_int k / 10000)"
    "\<bar>of_int k :: rat\<bar> \<le> 2 powi 97" "0 \<le> k"
    by auto
  have "\<bar>of_int k / 10000 :: rat\<bar> \<le> \<bar>of_int k\<bar>" by (simp add: field_simps)
  then have "\<bar>of_int k / 10000 :: rat\<bar> \<le> 2 powi 97" using k(2) by (rule order_trans)
  from float64_of_rat_finite [OF this] k(3)
  obtain y where "float64_of_rat (of_int k / 10000) = Fin y" "0 \<le> y" by auto
  then show ?thesis using k(1,3) by auto
qed

text \<open>
  C2. For a process seen for the first time the percentage is exactly 0. With a
  previous sample it is the difference of the two CPU totals (current minus previous,
  in milliseconds) divided by the milliseconds elapsed between the two capture times,
  rounded to four decimal digits by \<^verbatim>\<open>Round(perc, .5, 4)\<close>. The code computes in float64:
  the difference and the elapsed nanoseconds are converted to float64, the
  nanoseconds are divided by \<^verbatim>\<open>1e6\<close>, and the quotient is taken. The two differences are
  the mathematical ones as long as they fit the \<^verbatim>\<open>int64\<close> and the \<^verbatim>\<open>time.Duration\<close> that
  hold them.
\<close>

theorem GetProcCpuPercentage_quotient:
  "GetProcCpuPercentage None current = Fin 0
   \<and> (- (2 ^ 63) \<le> uint (Cpu_Total (Cpu c)) - uint (Cpu_Total (Cpu p))
      \<and> uint (Cpu_Total (Cpu c)) - uint (Cpu_Total (Cpu p)) < 2 ^ 63
      \<and> - (2 ^ 63) \<le> Ctime c - Ctime p \<and> Ctime c - Ctime p < 2 ^ 63
     \<longrightarrow> GetProcCpuPercentage (Some p) (Some c) =
         Round (float_div
                  (float64_of_int (uint (Cpu_Total (Cpu c)) - uint (Cpu_Total (Cpu p))))
                  (float_div (float64_of_int (Ctime c - Ctime p)) (Fin 1000000))) (1 / 2) 4)"
  using GetProcCpuPercentage_in_range [of c p]
  by (simp add: GetProcCpuPercentage_first del: Round.simps float_div.simps)

theorem GetProcCpuPercentage_quotient_witness:
  "- (2 ^ 63) \<le> uint (Cpu_Total (Cpu (cpuSample 1570 8000000000)))
        - uint (Cpu_Total (Cpu (cpuSample 1000 0)))
   \<and> uint (Cpu_Total (Cpu (cpuSample 1570 8000000000)))
        - uint (Cpu_Total (Cpu (cpuSample 1000 0))) < 2 ^ 63
   \<and> - (2 ^ 63) \<le> Ctime (cpuSample 1570 8000000000) - Ctime (cpuSample 1000 0)
   \<and> Ctime (cpuSample 1570 8000000000) - Ctime (cpuSample 1000 0) < 2 ^ 63
   \<and> GetProcCpuPercentage (Some (cpuSample 1000 0)) (Some (cpuSample 1570 8000000000))
      = float64_of_rat (712 / 10000)"
  using GetProcCpuPercentage_quotient [of None "cpuSample 1570 8000000000" "cpuSample 1000 0"]
  by (simp add: cpuSample_def zeroProcess_def zeroProcTime_def float_eval)

text \<open>
  C3. As stated the claim fails: when the current total is smaller than the previous
  one the difference is negative and so is the percentage. Here the total fell from 1000
  to 0 milliseconds within one second, and the percentage is -1.
\<close>

theorem GetProcCpuPercentage_sign_counterexample:
  "GetProcCpuPercentage (Some (cpuSample 1000 0)) (Some (cpuSample 0 1000000000)) = Fin (- 1)
   \<and> \<not> float_ge (Fin (- 1)) (Fin 0)"
  by (simp add: GetProcCpuPercentage_def cpuSample_def zeroProcess_def zeroProcTime_def
      Time_Sub_def float64_of_int64_def float_eval)

text \<open>
  C3, amended. Without a previous sample the percentage is 0. When the two samples were
  taken at different times the percentage is rounded to a fixed precision: it is the
  float64 nearest to \<^verbatim>\<open>k/10000\<close> for an integer \<^verbatim>\<open>k\<close>. It is a number that is at least 0,
  with \<^verbatim>\<open>k\<close> at least 0, when the current total is not smaller than the previous one and
  exceeds it by less than \<^verbatim>\<open>2^63\<close> milliseconds, and the current sample was taken after
  the previous one, less than \<^verbatim>\<open>2^63\<close> nanoseconds later.
\<close>

theorem GetProcCpuPercentage_sign:
  "GetProcCpuPercentage None current = Fin 0
   \<and> (Ctime c \<noteq> Ctime p
     \<longrightarrow> (\<exists>k. GetProcCpuPercentage (Some p) (Some c) = float64_of_rat (of_int k / 10000)))
   \<and> (uint (Cpu_Total (Cpu p)) \<le> uint (Cpu_Total (Cpu c))
      \<and> uint (Cpu_Total (Cpu c)) - uint (Cpu_Total (Cpu p)) < 2 ^ 63
      \<and> 0 < Ctime c - Ctime p \<and> Ctime c - Ctime p < 2 ^ 63
     \<longrightarrow> float_ge (GetProcCpuPercentage (Some p) (Some c)) (Fin 0)
         \<and> (\<exists>k y. 0 \<le> k \<and> 0 \<le> y
              \<and> GetProcCpuPercentage (Some p) (Some c) = float64_of_rat (of_int k / 10000)
              \<and> GetProcCpuPercentage (Some p) (Some c) = Fin y))"
proof (intro conjI impI)
  show "GetProcCpuPercentage None current = Fin 0"
    by (rule GetProcCpuPercentage_first)
next
  assume "Ctime c \<noteq> Ctime p"
  then show "\<exists>k. GetProcCpuPercentage (Some p) (Some c) = float64_of_rat (of_int k / 10000)"
    by (rule GetProcCpuPercentage_rounded)
next
  assume a: "uint (Cpu_Total (Cpu p)) \<le> uint (Cpu_Total (Cpu c))
      \<and> uint (Cpu_Total (Cpu c)) - uint (Cpu_Total (Cpu p)) < 2 ^ 63
      \<and> 0 < Ctime c - Ctime p \<and> Ctime c - Ctime p < 2 ^ 63"
  then obtain k y where n: "0 \<le> k" "0 \<le> y"
      "GetProcCpuPercentage (Some p) (Some c) = float64_of_rat (of_int k / 10000)"
      "GetProcCpuPercentage (Some p) (Some c) = Fin y"
    using GetProcCpuPercentage_nonneg [of p c] by blast
  then show "\<exists>k y. 0 \<le> k \<and> 0 \<le> y
      \<and> GetProcCpuPercentage (Some p) (Some c) = float64_of_rat (of_int k / 10000)
      \<and> GetProcCpuPercentage (Some p) (Some c) = Fin y"
    by blast
  show "float_ge (GetProcCpuPercentage (Some p) (Some c)) (Fin 0)"
    using n(2,4) by simp
qed

theorem GetProcCpuPercentage_sign_witness:
  "Ctime (cpuSample 1570 8000000000) \<noteq> Ctime (cpuSample 1000 0)
   \<and> uint (Cpu_Total (Cpu (cpuSample 1000 0))) \<le> uint (Cpu_Total (Cpu (cpuSample 1570 8000000000)))
   \<and> uint (Cpu_Total (Cpu (cpuSample 1570 8000000000)))
        - uint (Cpu_Total (Cpu (cpuSample 1000 0))) < 2 ^ 63
   \<and> 0 < Ctime (cpuSample 1570 8000000000) - Ctime (cpuSample 1000 0)
   \<and> Ctime (cpuSample 1570 8000000000) - Ctime (cpuSample 1000 0) < 2 ^ 63
   \<and> float_ge (GetProcCpuPercentage (Some (cpuSample 1000 0))
        (Some (cpuSample 1570 8000000000))) (Fin 0)"
  using GetProcCpuPercentage_sign [of None "cpuSample 1570 8000000000" "cpuSample 1000 0"]
  by (simp add: cpuSample_def zeroProcess_def zeroProcTime_def)

section \<open>The name in the stat record\<close>

lemma Fields_stat: "Fields
  (''b) S 1 7 7 0 -1 4194560 120 0 0 0 3 4 0 0 20 0 1 0 250 1000000 100 '' @
     ''18446744073709551615 1 1 0 0 0 0 0 0 0 0 0 0 17 2 0 0 0 0 0 0 0 0 0 0 0 0 0'') =
  [''b)'', ''S'', ''1'', ''7'', ''7'', ''0'', ''-1'', ''4194560'', ''120'', ''0'', ''0'', ''0'', ''3'', ''4'',
   ''0'', ''0'', ''20'', ''0'', ''1'', ''0'', ''250'', ''1000000'', ''100'', ''18446744073709551615'',
   ''1'', ''1'', ''0'', ''0'', ''0'', ''0'', ''0'', ''0'', ''0'', ''0'', ''0'', ''0'', ''17'', ''2'', ''0'', ''0'', ''0'',
   ''0'', ''0'', ''0'', ''0'', ''0'', ''0'', ''0'', ''0'', ''0'', ''0'']"
  by (simp add: Fields_def isSpace_def)

lemma Fields_uid: "Fields ''0 0 0 0'' = [''0'', ''0'', ''0'', ''0'']"
  by (simp add: Fields_def isSpace_def)

text \<open>
  C5. The claim is that a name which itself contains a closing parenthesis is extracted
  whole, and that the run state and the other fields are read from what follows the
  parenthesis that closes the name. The code cuts the record after the first closing
  parenthesis. For the process named \<^verbatim>\<open>a)b\<close> it returns the name \<^verbatim>\<open>a\<close>; the fields then
  begin with the rest of the name, so the run state is the byte \<^verbatim>\<open>b\<close> (reported as
  "unknown") instead of \<^verbatim>\<open>S\<close>, the parent PID is read from the text \<^verbatim>\<open>S\<close>, and every later
  field is taken one place too early.
\<close>

theorem ProcState_Get_paren_name:
  "ProcState_Get (procfsWithStat statOfParenName atoi) 7 =
     Inr (Inr \<lparr>State_Name = ''a'', State_Username = ''root'', State_State = CHR ''b'',
       State_Ppid = atoi ''S'', State_Pgid = atoi ''1'', State_Tty = atoi ''7'',
       State_Priority = atoi ''0'', State_Nice = atoi ''20'', State_Processor = atoi ''17''\<rparr>)
   \<and> getProcState (CHR ''b'') = ''unknown''"
  using Fields_stat
  by (simp add: ProcState_Get_def procfsWithStat_def statOfParenName_def orPanic_def index_def
      ProcState_Username_def getUIDs_def zeroProcState_def getProcState_def Let_def
      Fields_uid)

section \<open>The event assembler\<close>

lemma event_cmdline_pid: "map_of (event_cmdline process proc) ''pid'' = map_of proc ''pid''"
  by (simp add: event_cmdline_def update_conv')

lemma event_cwd_pid: "map_of (event_cwd process proc) ''pid'' = map_of proc ''pid''"
  by (simp add: event_cwd_def update_conv')

lemma event_env_pid: "map_of (event_env process proc) ''pid'' = map_of proc ''pid''"
  by (simp add: event_env_def update_conv' split: option.splits)

lemma event_cpu_pid: "map_of (event_cpu process proc) ''pid'' = map_of proc ''pid''"
  by (simp add: event_cpu_def update_conv')

lemma event_ticks_pid: "map_of (event_ticks procStats process proc) ''pid'' = map_of proc ''pid''"
  by (simp add: event_ticks_def Put_other del: Put.simps)

lemma event_fd_pid: "map_of (event_fd process proc) ''pid'' = map_of proc ''pid''"
  by (simp add: event_fd_def update_conv')

lemma getProcessEvent_pid:
  "map_of (getProcessEvent ds procStats process) ''pid'' = Some (VInt (Pid process))"
  by (simp add: getProcessEvent_def event_fd_pid event_ticks_pid event_cpu_pid event_env_pid
      event_cwd_pid event_cmdline_pid event_literal_def)

lemma event_cmdline_memory:
  "map_of (event_cmdline process proc) ''memory'' = map_of proc ''memory''"
  by (simp add: event_cmdline_def update_conv')

lemma event_cwd_memory: "map_of (event_cwd process proc) ''memory'' = map_of proc ''memory''"
  by (simp add: event_cwd_def update_conv')

lemma event_env_memory: "map_of (event_env process proc) ''memory'' = map_of proc ''memory''"
  by (simp add: event_env_def update_conv' split: option.splits)

lemma event_cpu_memory: "map_of (event_cpu process proc) ''memory'' = map_of proc ''memory''"
  by (simp add: event_cpu_def update_conv')

lemma event_ticks_memory:
  "map_of (event_ticks procStats process proc) ''memory'' = map_of proc ''memory''"
  by (simp add: event_ticks_def Put_other del: Put.simps)

lemma event_fd_memory: "map_of (event_fd process proc) ''memory'' = map_of proc ''memory''"
  by (simp add: event_fd_def update_conv')

lemma getProcessEvent_memory:
  "map_of (getProcessEvent ds procStats process) ''memory'' =
     Some (VMap
       [(''size'', VUint64 (Mem_Size (Mem process))),
        (''rss'', VMap
           [(''bytes'', VUint64 (Mem_Resident (Mem process))),
            (''pct'', VFloat (GetProcMemPercentage ds process 0))]),
        (''share'', VUint64 (Mem_Share (Mem process)))])"
  by (simp add: getProcessEvent_def event_fd_memory event_ticks_memory event_cpu_memory
      event_env_memory event_cwd_memory event_cmdline_memory event_literal_def)

lemma getProcessEvent_frame:
  "ds_GetMemory ds = ds_GetMemory ds'
    \<Longrightarrow> getProcessEvent ds procStats process = getProcessEvent ds' procStats process"
  by (simp add: getProcessEvent_def event_literal_def GetProcMemPercentage_def)

text \<open>
  C9. As stated the claim fails: the event depends on the state of the host. Each call
  asks \<^verbatim>\<open>memory.GetMemory\<close> for the total physical memory to compute \<^verbatim>\<open>memory.rss.pct\<close>, so
  the same process under the same configuration gives different records when the
  reported total differs (here 1000 and 2000 bytes, for 500 resident bytes).
\<close>

theorem getProcessEvent_pure_counterexample:
  "getProcessEvent ((singleSource 1 ''init'' [] (Inl ErrPermission) [] 0)\<lparr>ds_GetMemory := Inr 1000\<rparr>)
       (samplerConfig False [] Map.empty) (sampleProcess 1 0 500)
     \<noteq> getProcessEvent
         ((singleSource 1 ''init'' [] (Inl ErrPermission) [] 0)\<lparr>ds_GetMemory := Inr 2000\<rparr>)
         (samplerConfig False [] Map.empty) (sampleProcess 1 0 500)"
proof -
  let ?ds1 = "(singleSource 1 ''init'' [] (Inl ErrPermission) [] 0)\<lparr>ds_GetMemory := Inr 1000\<rparr>"
  let ?ds2 = "(singleSource 1 ''init'' [] (Inl ErrPermission) [] 0)\<lparr>ds_GetMemory := Inr 2000\<rparr>"
  have 1: "GetProcMemPercentage ?ds1 (sampleProcess 1 0 500) 0 = Fin (1 / 2)"
    by (simp add: GetProcMemPercentage_def float64_of_uint64_def sampleProcess_def
        zeroProcMem_def float_eval)
  have 2: "GetProcMemPercentage ?ds2 (sampleProcess 1 0 500) 0 = Fin (1 / 4)"
    by (simp add: GetProcMemPercentage_def float64_of_uint64_def sampleProcess_def
        zeroProcMem_def float_eval)
  have "map_of (getProcessEvent ?ds1 (samplerConfig False [] Map.empty) (sampleProcess 1 0 500))
          ''memory''
     \<noteq> map_of (getProcessEvent ?ds2 (samplerConfig False [] Map.empty) (sampleProcess 1 0 500))
          ''memory''"
    unfolding getProcessEvent_memory 1 2 by simp
  then show ?thesis by auto
qed

text \<open>
  C9, amended. The event assembler has no failure mode: for every process it returns a
  record, which holds the PID and the memory group. The record is a function of the
  process, the configuration and the total physical memory that \<^verbatim>\<open>memory.GetMemory\<close>
  reports at the time of the call: two data sources that report the same total give the
  same record, and when the query fails the memory percentage is 0.
\<close>

theorem getProcessEvent_total:
  "(ds_GetMemory ds = ds_GetMemory ds'
      \<longrightarrow> getProcessEvent ds procStats process = getProcessEvent ds' procStats process)
   \<and> map_of (getProcessEvent ds procStats process) ''pid'' = Some (VInt (Pid process))
   \<and> map_of (getProcessEvent ds procStats process) ''memory'' =
       Some (VMap
         [(''size'', VUint64 (Mem_Size (Mem process))),
          (''rss'', VMap
             [(''bytes'', VUint64 (Mem_Resident (Mem process))),
              (''pct'', VFloat (GetProcMemPercentage ds process 0))]),
          (''share'', VUint64 (Mem_Share (Mem process)))])
   \<and> (ds_GetMemory ds = Inl err \<longrightarrow> GetProcMemPercentage ds process 0 = Fin 0)"
  using getProcessEvent_frame [of ds ds' procStats process]
    getProcessEvent_pid [of ds procStats process]
    getProcessEvent_memory [of ds procStats process]
  by (simp add: GetProcMemPercentage_def)

theorem getProcessEvent_total_witness:
  "ds_GetMemory (singleSource 1 ''init'' [] (Inl ErrPermission) [] 0)
     = ds_GetMemory (singleSource 2 ''sshd'' [''-D''] (Inl ErrNotImplemented) [] 5)
   \<and> getProcessEvent (singleSource 1 ''init'' [] (Inl ErrPermission) [] 0)
        (samplerConfig False [] Map.empty) (sampleProcess 1 0 512)
      = getProcessEvent (singleSource 2 ''sshd'' [''-D''] (Inl ErrNotImplemented) [] 5)
        (samplerConfig False [] Map.empty) (sampleProcess 1 0 512)
   \<and> map_of (getProcessEvent (singleSource 1 ''init'' [] (Inl ErrPermission) [] 0)
        (samplerConfig False [] Map.empty) (sampleProcess 1 0 512)) ''pid'' = Some (VInt 1)
   \<and> ds_GetMemory ((singleSource 1 ''init'' [] (Inl ErrPermission) [] 0)
        \<lparr>ds_GetMemory := Inl (ErrOther ''open /proc/meminfo'')\<rparr>)
      = Inl (ErrOther ''open /proc/meminfo'')
   \<and> GetProcMemPercentage ((singleSource 1 ''init'' [] (Inl ErrPermission) [] 0)
        \<lparr>ds_GetMemory := Inl (ErrOther ''open /proc/meminfo'')\<rparr>) (sampleProcess 1 0 512) 0
      = Fin 0"
proof -
  have m: "ds_GetMemory (singleSource 1 ''init'' [] (Inl ErrPermission) [] 0)
     = ds_GetMemory (singleSource 2 ''sshd'' [''-D''] (Inl ErrNotImplemented) [] 5)"
    by (simp add: singleSource_def)
  note t1 = getProcessEvent_total [of "singleSource 1 ''init'' [] (Inl ErrPermission) [] 0"
      "singleSource 2 ''sshd'' [''-D''] (Inl ErrNotImplemented) [] 5"
      "samplerConfig False [] Map.empty" "sampleProcess 1 0 512" "ErrOther ''x''"]
  note t2 = getProcessEvent_total [of "(singleSource 1 ''init'' [] (Inl ErrPermission) [] 0)
        \<lparr>ds_GetMemory := Inl (ErrOther ''open /proc/meminfo'')\<rparr>"
      "singleSource 1 ''init'' [] (Inl ErrPermission) [] 0"
      "samplerConfig False [] Map.empty" "sampleProcess 1 0 512"
      "ErrOther ''open /proc/meminfo''"]
  have p: "Pid (sampleProcess 1 0 512) = 1" by (simp add: sampleProcess_def)
  have e: "ds_GetMemory ((singleSource 1 ''init'' [] (Inl ErrPermission) [] 0)
        \<lparr>ds_GetMemory := Inl (ErrOther ''open /proc/meminfo'')\<rparr>)
      = Inl (ErrOther ''open /proc/meminfo'')"
    by simp
  have a: "getProcessEvent (singleSource 1 ''init'' [] (Inl ErrPermission) [] 0)
        (samplerConfig False [] Map.empty) (sampleProcess 1 0 512)
      = getProcessEvent (singleSource 2 ''sshd'' [''-D''] (Inl ErrNotImplemented) [] 5)
        (samplerConfig False [] Map.empty) (sampleProcess 1 0 512)"
    using t1 m by blast
  have b: "map_of (getProcessEvent (singleSource 1 ''init'' [] (Inl ErrPermission) [] 0)
        (samplerConfig False [] Map.empty) (sampleProcess 1 0 512)) ''pid'' = Some (VInt 1)"
    using t1 p by simp
  have c: "GetProcMemPercentage ((singleSource 1 ''init'' [] (Inl ErrPermission) [] 0)
        \<lparr>ds_GetMemory := Inl (ErrOther ''open /proc/meminfo'')\<rparr>) (sampleProcess 1 0 512) 0
      = Fin 0"
    using t2 e by blast
  show ?thesis using m a b e c by blast
qed

section \<open>Carrying the command line and the environment over\<close>


lemma andThen_fst:
  "fst (andThen m f) = (case fst m of Inl e \<Rightarrow> Inl e | Inr a \<Rightarrow> fst (f a))"
  by (cases m) (auto simp: andThen_def split: sum.splits prod.splits)
























end
